theory Spec2Isabelle
  imports Complex_Main "HOL-Library.Sublist"
begin

section \<open>JavaScript values\<close>

text \<open>
  The repository is a Node.js service. Its repositories and route handlers work on
  loosely typed values: raw query strings, numbers produced by \<open>parseInt\<close>, \<open>null\<close>
  and \<open>undefined\<close>. Numbers are IEEE doubles in the source; here a number is an
  unbounded integer, \<open>NaN\<close> or an infinity, and the quotient of two numbers is an exact
  rational until \<open>Math.floor\<close> or \<open>Math.ceil\<close> makes it an integer again. Rounding
  of very large values and the sign of zero are not represented. Strings are byte
  strings (UTF-8).
\<close>

datatype 'a ext = NaN | PInf | NInf | Fin 'a

type_synonym jsnum = "int ext"

text \<open>
  A query value is a string, or an array or an object when a key is repeated or
  bracketed; the properties of an object are never inspected by the code modelled here.
\<close>

datatype jsval =
    Undefined
  | Null
  | Bool bool
  | Num jsnum
  | Str string
  | Arr "jsval list"
  | Obj

datatype error = TypeError | RangeError | DbError

text \<open>Truthiness, as used by \<open>if (v)\<close>, \<open>!v\<close>, \<open>a || b\<close> and \<open>c ? x : y\<close>.\<close>

fun truthy :: "jsval \<Rightarrow> bool" where
  "truthy Undefined = False"
| "truthy Null = False"
| "truthy (Bool b) = b"
| "truthy (Num NaN) = False"
| "truthy (Num (Fin n)) = (n \<noteq> 0)"
| "truthy (Num PInf) = True"
| "truthy (Num NInf) = True"
| "truthy (Str s) = (s \<noteq> [])"
| "truthy (Arr xs) = True"
| "truthy Obj = True"

text \<open>\<open>a || b\<close>\<close>

definition js_or :: "jsval \<Rightarrow> jsval \<Rightarrow> jsval" where
  "js_or a b = (if truthy a then a else b)"

subsection \<open>Decimal digits\<close>

definition is_digit :: "char \<Rightarrow> bool" where
  "is_digit c = (48 \<le> (of_char c :: nat) \<and> (of_char c :: nat) \<le> 57)"

definition digit_val :: "char \<Rightarrow> nat" where
  "digit_val c = of_char c - 48"

definition digit_char :: "nat \<Rightarrow> char" where
  "digit_char d = char_of (48 + d)"

text \<open>The value of a digit string, most significant digit first.\<close>

fun digits_val :: "nat \<Rightarrow> string \<Rightarrow> nat" where
  "digits_val acc [] = acc"
| "digits_val acc (c # cs) = digits_val (10 * acc + digit_val c) cs"

text \<open>The decimal numeral of a natural number, without leading zeros.\<close>

fun nat_digits :: "nat \<Rightarrow> string" where
  "nat_digits n = (if n < 10 then [digit_char n] else nat_digits (n div 10) @ [digit_char (n mod 10)])"

declare nat_digits.simps [simp del]

subsection \<open>ToString\<close>

definition num_to_string :: "jsnum \<Rightarrow> string" where
  "num_to_string x = (case x of
      NaN \<Rightarrow> ''NaN''
    | PInf \<Rightarrow> ''Infinity''
    | NInf \<Rightarrow> ''-Infinity''
    | Fin n \<Rightarrow> (if n < 0 then CHR ''-'' # nat_digits (nat (- n)) else nat_digits (nat n)))"

text \<open>\<open>Array.prototype.join\<close> with separator \<open>,\<close>.\<close>

fun join_comma :: "string list \<Rightarrow> string" where
  "join_comma [] = []"
| "join_comma [s] = s"
| "join_comma (s # t # ss) = s @ '','' @ join_comma (t # ss)"

text \<open>
  \<open>String(v)\<close>, which is also what a template literal and \<open>parseInt\<close> apply to their
  argument. An array is the join of its elements, where \<open>null\<close> and \<open>undefined\<close>
  elements give the empty string.
\<close>

fun to_string :: "jsval \<Rightarrow> string" where
  "to_string Undefined = ''undefined''"
| "to_string Null = ''null''"
| "to_string (Bool b) = (if b then ''true'' else ''false'')"
| "to_string (Num x) = num_to_string x"
| "to_string (Str s) = s"
| "to_string (Arr xs) =
     join_comma (map (\<lambda>v. if v = Undefined \<or> v = Null then [] else to_string v) xs)"
| "to_string Obj = ''[object Object]''"

subsection \<open>parseInt with radix 10\<close>

text \<open>
  \<open>parseInt(v, 10)\<close>: the argument is converted to a string, leading white space is
  skipped, an optional sign is read, and the longest prefix of decimal digits is the
  result; with no digit the result is \<open>NaN\<close>. Only the ASCII white space characters are
  recognised here.
\<close>

definition is_ws :: "char \<Rightarrow> bool" where
  "is_ws c = (c \<in> {CHR '' '', CHR 0x09, CHR 0x0A, CHR 0x0B, CHR 0x0C, CHR 0x0D})"

definition parse_digits :: "string \<Rightarrow> nat option" where
  "parse_digits s = (let ds = takeWhile is_digit s in
     if ds = [] then None else Some (digits_val 0 ds))"

definition parseInt_str :: "string \<Rightarrow> jsnum" where
  "parseInt_str s = (case dropWhile is_ws s of
      [] \<Rightarrow> NaN
    | c # cs \<Rightarrow>
        if c = CHR ''-'' then (case parse_digits cs of None \<Rightarrow> NaN | Some n \<Rightarrow> Fin (- int n))
        else if c = CHR ''+'' then (case parse_digits cs of None \<Rightarrow> NaN | Some n \<Rightarrow> Fin (int n))
        else (case parse_digits (c # cs) of None \<Rightarrow> NaN | Some n \<Rightarrow> Fin (int n)))"

definition parseInt :: "jsval \<Rightarrow> jsnum" where
  "parseInt v = parseInt_str (to_string v)"

definition isNaN :: "jsnum \<Rightarrow> bool" where
  "isNaN x = (x = NaN)"

subsection \<open>Arithmetic\<close>

text \<open>\<open>a - b\<close> and \<open>a * b\<close> on numbers.\<close>

fun js_sub :: "jsnum \<Rightarrow> jsnum \<Rightarrow> jsnum" where
  "js_sub (Fin a) (Fin b) = Fin (a - b)"
| "js_sub NaN _ = NaN"
| "js_sub _ NaN = NaN"
| "js_sub PInf PInf = NaN"
| "js_sub NInf NInf = NaN"
| "js_sub PInf _ = PInf"
| "js_sub NInf _ = NInf"
| "js_sub _ PInf = NInf"
| "js_sub _ NInf = PInf"

fun js_mul :: "jsnum \<Rightarrow> jsnum \<Rightarrow> jsnum" where
  "js_mul (Fin a) (Fin b) = Fin (a * b)"
| "js_mul NaN _ = NaN"
| "js_mul _ NaN = NaN"
| "js_mul PInf PInf = PInf"
| "js_mul NInf NInf = PInf"
| "js_mul PInf NInf = NInf"
| "js_mul NInf PInf = NInf"
| "js_mul PInf (Fin b) = (if b = 0 then NaN else if 0 < b then PInf else NInf)"
| "js_mul NInf (Fin b) = (if b = 0 then NaN else if 0 < b then NInf else PInf)"
| "js_mul (Fin a) PInf = (if a = 0 then NaN else if 0 < a then PInf else NInf)"
| "js_mul (Fin a) NInf = (if a = 0 then NaN else if 0 < a then NInf else PInf)"

text \<open>\<open>a / b\<close>: the exact quotient, an infinity on division by zero, \<open>NaN\<close> for \<open>0 / 0\<close>.\<close>

fun js_div :: "jsnum \<Rightarrow> jsnum \<Rightarrow> rat ext" where
  "js_div (Fin a) (Fin b) =
     (if b = 0 then (if a = 0 then NaN else if 0 < a then PInf else NInf)
      else Fin (of_int a / of_int b))"
| "js_div NaN _ = NaN"
| "js_div _ NaN = NaN"
| "js_div (Fin a) PInf = Fin 0"
| "js_div (Fin a) NInf = Fin 0"
| "js_div PInf (Fin b) = (if 0 \<le> b then PInf else NInf)"
| "js_div NInf (Fin b) = (if 0 \<le> b then NInf else PInf)"
| "js_div PInf PInf = NaN"
| "js_div PInf NInf = NaN"
| "js_div NInf PInf = NaN"
| "js_div NInf NInf = NaN"

fun Math_floor :: "rat ext \<Rightarrow> jsnum" where
  "Math_floor (Fin q) = Fin \<lfloor>q\<rfloor>"
| "Math_floor NaN = NaN"
| "Math_floor PInf = PInf"
| "Math_floor NInf = NInf"

fun Math_ceil :: "rat ext \<Rightarrow> jsnum" where
  "Math_ceil (Fin q) = Fin \<lceil>q\<rceil>"
| "Math_ceil NaN = NaN"
| "Math_ceil PInf = PInf"
| "Math_ceil NInf = NInf"

subsection \<open>Lower case\<close>

text \<open>
  \<open>String.prototype.toLowerCase\<close>. Only the bytes of \<open>A\<close> to \<open>Z\<close> change: no character
  outside ASCII has a lower-case form containing one of the letters of \<open>desc\<close>, which
  is the only text the result is compared with.
\<close>

definition lower_char :: "char \<Rightarrow> char" where
  "lower_char c =
     (if 65 \<le> (of_char c :: nat) \<and> (of_char c :: nat) \<le> 90 then char_of (of_char c + 32 :: nat) else c)"

definition toLowerCase :: "string \<Rightarrow> string" where
  "toLowerCase s = map lower_char s"

section \<open>Dates\<close>

text \<open>
  The source turns Unix seconds into text with \<open>new Date(s * 1000).toISOString()\<close> and
  reads a date filter with \<open>new Date(''YYYY-MM-DD'').getTime()\<close>. Both are modelled with the
  day arithmetic of the language standard: a time value is a number of milliseconds
  since 1970-01-01T00:00:00Z, in the proleptic Gregorian calendar.
\<close>

definition msPerDay :: int where
  "msPerDay = 86400000"

definition DaysInYear :: "int \<Rightarrow> int" where
  "DaysInYear y =
     (if y mod 4 \<noteq> 0 then 365 else if y mod 100 \<noteq> 0 then 366
      else if y mod 400 \<noteq> 0 then 365 else 366)"

text \<open>The day number of the first day of year \<open>y\<close>.\<close>

definition DayFromYear :: "int \<Rightarrow> int" where
  "DayFromYear y =
     365 * (y - 1970) + (y - 1969) div 4 - (y - 1901) div 100 + (y - 1601) div 400"

text \<open>
  The year of a day number is the largest \<open>y\<close> with \<open>DayFromYear y \<le> d\<close>. It is found
  by stepping up from a year that is not after the day.
\<close>

function year_search :: "int \<Rightarrow> int \<Rightarrow> int" where
  "year_search y d = (if DayFromYear (y + 1) \<le> d then year_search (y + 1) d else y)"
  by pat_completeness auto
termination
proof (relation "measure (\<lambda>(y, d). nat (d + 1 - DayFromYear (y + 1)))")
  show "wf (measure (\<lambda>(y, d). nat (d + 1 - DayFromYear (y + 1))))"
    by simp
next
  fix y d :: int
  assume le: "DayFromYear (y + 1) \<le> d"
  have a: "(y - 1968) div 4 \<le> (y - 1967) div 4"
    by (rule zdiv_mono1) simp_all
  have b: "(y - 1600) div 400 \<le> (y - 1599) div 400"
    by (rule zdiv_mono1) simp_all
  have "(y - 1899) div 100 \<le> (y - 1900 + 100) div 100"
    by (rule zdiv_mono1) simp_all
  then have c: "(y - 1899) div 100 \<le> (y - 1900) div 100 + 1"
    by simp
  have "DayFromYear (y + 1) < DayFromYear (y + 1 + 1)"
    using a b c by (simp add: DayFromYear_def)
  then show "((y + 1, d), (y, d)) \<in> measure (\<lambda>(y, d). nat (d + 1 - DayFromYear (y + 1)))"
    using le by simp
qed

declare year_search.simps [simp del]

definition YearFromDay :: "int \<Rightarrow> int" where
  "YearFromDay d = year_search (1970 + (if 0 \<le> d then d div 366 else d div 365)) d"

text \<open>The day within the year at which month \<open>m\<close> (0 to 11) starts; \<open>l\<close> is 1 in a leap year.\<close>

definition month_start :: "int \<Rightarrow> int \<Rightarrow> int" where
  "month_start l m =
     (if m = 0 then 0 else if m = 1 then 31 else if m = 2 then 59 + l
      else if m = 3 then 90 + l else if m = 4 then 120 + l else if m = 5 then 151 + l
      else if m = 6 then 181 + l else if m = 7 then 212 + l else if m = 8 then 243 + l
      else if m = 9 then 273 + l else if m = 10 then 304 + l else 334 + l)"

definition leap :: "int \<Rightarrow> int" where
  "leap y = (if DaysInYear y = 366 then 1 else 0)"

text \<open>The month (0 to 11) of the day \<open>dy\<close> within a year.\<close>

definition MonthFromDay :: "int \<Rightarrow> int \<Rightarrow> int" where
  "MonthFromDay l dy =
     (if dy < 31 then 0 else if dy < 59 + l then 1 else if dy < 90 + l then 2
      else if dy < 120 + l then 3 else if dy < 151 + l then 4 else if dy < 181 + l then 5
      else if dy < 212 + l then 6 else if dy < 243 + l then 7 else if dy < 273 + l then 8
      else if dy < 304 + l then 9 else if dy < 334 + l then 10 else 11)"

text \<open>Zero-padded decimal of width \<open>w\<close>.\<close>

definition pad :: "nat \<Rightarrow> nat \<Rightarrow> string" where
  "pad w n = replicate (w - length (nat_digits n)) CHR ''0'' @ nat_digits n"

definition year_string :: "int \<Rightarrow> string" where
  "year_string y =
     (if 0 \<le> y \<and> y \<le> 9999 then pad 4 (nat y)
      else (if y < 0 then CHR ''-'' else CHR ''+'') # pad 6 (nat \<bar>y\<bar>))"

text \<open>
  \<open>new Date(t).toISOString()\<close> for a time value \<open>t\<close> in milliseconds. A time value
  beyond 8.64e15 in magnitude is an invalid date, for which \<open>toISOString\<close> throws a
  \<open>RangeError\<close>.
\<close>

definition toISOString :: "int \<Rightarrow> error + string" where
  "toISOString t =
     (if \<bar>t\<bar> \<le> 8640000000000000 then
        (let d = t div msPerDay;
             w = t mod msPerDay;
             y = YearFromDay d;
             dy = d - DayFromYear y;
             m = MonthFromDay (leap y) dy;
             dt = dy - month_start (leap y) m + 1
         in Inr (year_string y @ ''-'' @ pad 2 (nat (m + 1)) @ ''-'' @ pad 2 (nat dt) @ ''T'' @
                 pad 2 (nat (w div 3600000)) @ '':'' @ pad 2 (nat ((w div 60000) mod 60)) @ '':'' @
                 pad 2 (nat ((w div 1000) mod 60)) @ ''.'' @ pad 3 (nat (w mod 1000)) @ ''Z''))
      else Inl RangeError)"

text \<open>
  The regular expression \<open>/^\d{4}-\d{2}-\d{2}$/\<close> of \<open>parseTimestamp\<close>.
\<close>

definition is_date_shape :: "string \<Rightarrow> bool" where
  "is_date_shape s =
     (length s = 10 \<and> list_all is_digit (take 4 s) \<and> s ! 4 = CHR ''-'' \<and>
      list_all is_digit (take 2 (drop 5 s)) \<and> s ! 7 = CHR ''-'' \<and>
      list_all is_digit (drop 8 s))"

text \<open>
  \<open>new Date(s).getTime()\<close> for a string of that shape: midnight UTC of the day, or
  \<open>NaN\<close> when the month is not 1 to 12 or the day is not 1 to 31. As in the V8 engine
  that runs the service, a day of 29 to 31 in a shorter month counts on into the next
  month.
\<close>

definition date_getTime :: "string \<Rightarrow> jsnum" where
  "date_getTime s =
     (let y = int (digits_val 0 (take 4 s));
          m = int (digits_val 0 (take 2 (drop 5 s)));
          d = int (digits_val 0 (drop 8 s))
      in if 1 \<le> m \<and> m \<le> 12 \<and> 1 \<le> d \<and> d \<le> 31
         then Fin ((DayFromYear y + month_start (leap y) (m - 1) + d - 1) * msPerDay)
         else NaN)"

subsection \<open>Recognising a date-time string\<close>

text \<open>
  A recogniser for the format \<open>YYYY-MM-DDTHH:mm:ss.sssZ\<close>, with the expanded year
  \<open>\<plusminus>YYYYYY\<close>, that also checks the ranges of the fields. It is used to state that a
  derived date field holds a valid date-time string.
\<close>

definition expect :: "char \<Rightarrow> string \<Rightarrow> string option" where
  "expect c s = (case s of [] \<Rightarrow> None | x # r \<Rightarrow> if x = c then Some r else None)"

definition digits_n :: "nat \<Rightarrow> string \<Rightarrow> (nat \<times> string) option" where
  "digits_n n s =
     (if n \<le> length s \<and> list_all is_digit (take n s)
      then Some (digits_val 0 (take n s), drop n s) else None)"

definition year_part :: "string \<Rightarrow> (int \<times> string) option" where
  "year_part s =
     (case s of
        [] \<Rightarrow> None
      | c # r \<Rightarrow>
          if c = CHR ''+'' then map_option (\<lambda>(y, r'). (int y, r')) (digits_n 6 r)
          else if c = CHR ''-'' then map_option (\<lambda>(y, r'). (- int y, r')) (digits_n 6 r)
          else map_option (\<lambda>(y, r'). (int y, r')) (digits_n 4 s))"

record iso_fields =
  iso_year :: int
  iso_month :: nat
  iso_day :: nat
  iso_hour :: nat
  iso_minute :: nat
  iso_second :: nat
  iso_milli :: nat

definition parse_iso :: "string \<Rightarrow> iso_fields option" where
  "parse_iso s =
     Option.bind (year_part s) (\<lambda>(y, r).
     Option.bind (expect CHR ''-'' r) (\<lambda>r.
     Option.bind (digits_n 2 r) (\<lambda>(mo, r).
     Option.bind (expect CHR ''-'' r) (\<lambda>r.
     Option.bind (digits_n 2 r) (\<lambda>(d, r).
     Option.bind (expect CHR ''T'' r) (\<lambda>r.
     Option.bind (digits_n 2 r) (\<lambda>(h, r).
     Option.bind (expect CHR '':'' r) (\<lambda>r.
     Option.bind (digits_n 2 r) (\<lambda>(mi, r).
     Option.bind (expect CHR '':'' r) (\<lambda>r.
     Option.bind (digits_n 2 r) (\<lambda>(se, r).
     Option.bind (expect CHR ''.'' r) (\<lambda>r.
     Option.bind (digits_n 3 r) (\<lambda>(ms, r).
       if r = ''Z''
       then Some \<lparr>iso_year = y, iso_month = mo, iso_day = d, iso_hour = h, iso_minute = mi,
                  iso_second = se, iso_milli = ms\<rparr>
       else None)))))))))))))"

definition days_in_month :: "int \<Rightarrow> nat \<Rightarrow> nat" where
  "days_in_month y m =
     (if m = 2 then (if DaysInYear y = 366 then 29 else 28)
      else if m = 4 \<or> m = 6 \<or> m = 9 \<or> m = 11 then 30 else 31)"

definition valid_iso8601 :: "string \<Rightarrow> bool" where
  "valid_iso8601 s =
     (case parse_iso s of
        None \<Rightarrow> False
      | Some f \<Rightarrow>
          1 \<le> iso_month f \<and> iso_month f \<le> 12 \<and>
          1 \<le> iso_day f \<and> iso_day f \<le> days_in_month (iso_year f) (iso_month f) \<and>
          iso_hour f \<le> 23 \<and> iso_minute f \<le> 59 \<and> iso_second f \<le> 59)"

text \<open>The time value that the fields of a date-time string denote.\<close>

definition iso_time :: "iso_fields \<Rightarrow> int" where
  "iso_time f =
     (DayFromYear (iso_year f) + month_start (leap (iso_year f)) (int (iso_month f) - 1)
        + int (iso_day f) - 1) * msPerDay
     + int (iso_hour f) * 3600000 + int (iso_minute f) * 60000 + int (iso_second f) * 1000
     + int (iso_milli f)"

section \<open>Filter normalisation\<close>

text \<open>
  An object with optional properties (\<open>req.query\<close>, a filter set) is a function from
  property names to values; a missing property reads as \<open>undefined\<close>.
\<close>

type_synonym js_object = "string \<Rightarrow> jsval"

definition empty_object :: js_object where
  "empty_object = (\<lambda>k. Undefined)"

text \<open>\<open>parseTimestamp\<close> of \<^verbatim>\<open>config/db/accounts.js\<close> and \<^verbatim>\<open>config/db/characters.js\<close>.\<close>

definition parseTimestamp :: "jsval \<Rightarrow> jsval" where
  "parseTimestamp v =
     (if \<not> truthy v then Null
      else if (case v of Str s \<Rightarrow> is_date_shape s | _ \<Rightarrow> False)
        then Num (Math_floor (js_div (date_getTime (to_string v)) (Fin 1000)))
      else (let timestamp = parseInt v in
            if isNaN timestamp then Null else Num timestamp))"

section \<open>Predicate builder\<close>

text \<open>
  A condition is the text appended to the clause together with the values pushed on
  the parameter list with it. \<open>add_cond\<close> is the statement pair
  \<^verbatim>\<open>whereClause += (whereClause ? " AND " : "") + text; params.push(...)\<close>.
\<close>

type_synonym cond = "string \<times> jsval list"

definition add_cond :: "string \<times> jsval list \<Rightarrow> cond \<Rightarrow> string \<times> jsval list" where
  "add_cond acc c =
     (fst acc @ (if fst acc \<noteq> [] then '' AND '' else []) @ fst c, snd acc @ snd c)"

record where_result =
  whereClause :: string
  params :: "jsval list"

definition finish_where :: "string \<times> jsval list \<Rightarrow> where_result" where
  "finish_where acc =
     \<lparr>whereClause = (if fst acc \<noteq> [] then ''WHERE '' @ fst acc else []), params = snd acc\<rparr>"

definition like_param :: "jsval \<Rightarrow> jsval" where
  "like_param v = Str (''%'' @ to_string v @ ''%'')"

text \<open>A date range bound: the condition is added only when the parsed timestamp is truthy.\<close>

definition time_cond :: "string \<Rightarrow> jsval \<Rightarrow> cond list" where
  "time_cond text v =
     (if truthy v then
        (let timestamp = parseTimestamp v in
         if truthy timestamp then [(text, [timestamp])] else [])
      else [])"

text \<open>
  The conditions of the accounts \<open>buildWhereClause\<close>, one entry for each \<open>if\<close> block of
  the source, in its order: first the blocks that read a query value, then the ban
  filter. \<open>now\<close> is \<open>Math.floor(Date.now() / 1000)\<close>.
\<close>

definition account_filter_conds :: "js_object \<Rightarrow> cond list" where
  "account_filter_conds filters = concat
     [if truthy (filters ''login'')
        then [(''`login` LIKE ?'', [like_param (filters ''login'')])] else [],
      if truthy (filters ''email'')
        then [(''`l2email` LIKE ?'', [like_param (filters ''email'')])] else [],
      if truthy (filters ''lastIP'')
        then [(''`lastIP` LIKE ?'', [like_param (filters ''lastIP'')])] else [],
      if truthy (filters ''lastHWID'')
        then [(''`lastHWID` LIKE ?'', [like_param (filters ''lastHWID'')])] else [],
      if truthy (filters ''lastServerId'')
        then [(''`lastServerId` = ?'', [Num (parseInt (filters ''lastServerId''))])] else [],
      if filters ''accessLevel'' \<noteq> Undefined
        then [(''`accessLevel` = ?'', [Num (parseInt (filters ''accessLevel''))])] else [],
      time_cond ''`lastactive` >= ?'' (filters ''lastActiveFrom''),
      time_cond ''`lastactive` <= ?'' (filters ''lastActiveTo'')]"

definition banned_cond :: "int \<Rightarrow> js_object \<Rightarrow> cond list" where
  "banned_cond now filters =
     (if truthy (filters ''isBanned'') then [(''`ban_expire` > ?'', [Num (Fin now)])] else [])"

definition account_conds :: "int \<Rightarrow> js_object \<Rightarrow> cond list" where
  "account_conds now filters = account_filter_conds filters @ banned_cond now filters"

definition account_buildWhereClause :: "int \<Rightarrow> js_object \<Rightarrow> where_result" where
  "account_buildWhereClause now filters =
     finish_where (foldl add_cond ([], []) (account_conds now filters))"

text \<open>
  The conditions of the characters \<open>buildWhereClause\<close>: the blocks that read a query
  value, then the \<open>if\<close>/\<open>else\<close> on \<open>deletedOnly\<close>, which always adds one condition.
\<close>

definition character_filter_conds :: "js_object \<Rightarrow> cond list" where
  "character_filter_conds filters = concat
     [if truthy (filters ''char_name'')
        then [(''`char_name` LIKE ?'', [like_param (filters ''char_name'')])] else [],
      if truthy (filters ''account_name'')
        then [(''`account_name` LIKE ?'', [like_param (filters ''account_name'')])] else [],
      if truthy (filters ''clanid'')
        then [(''`clanid` = ?'', [Num (parseInt (filters ''clanid''))])] else [],
      if filters ''online'' \<noteq> Undefined
        then [(''`online` = ?'', [Num (if filters ''online'' = Str ''true'' then Fin 1 else Fin 0)])]
        else [],
      if filters ''minLevel'' \<noteq> Undefined
        then [(''`base_class_id` >= ?'', [Num (parseInt (filters ''minLevel''))])] else [],
      if filters ''maxLevel'' \<noteq> Undefined
        then [(''`base_class_id` <= ?'', [Num (parseInt (filters ''maxLevel''))])] else [],
      time_cond ''`createtime` >= ?'' (filters ''createdAfter''),
      time_cond ''`createtime` <= ?'' (filters ''createdBefore''),
      time_cond ''`lastAccess` >= ?'' (filters ''lastAccessAfter''),
      time_cond ''`lastAccess` <= ?'' (filters ''lastAccessBefore''),
      if filters ''sex'' \<noteq> Undefined
        then [(''`sex` = ?'', [Num (parseInt (filters ''sex''))])] else []]"

definition deleted_cond :: "js_object \<Rightarrow> cond" where
  "deleted_cond filters =
     (if filters ''deletedOnly'' = Str ''true''
      then (''`deletetime` > 0'', [])
      else (''`deletetime` = 0'', []))"

definition character_conds :: "js_object \<Rightarrow> cond list" where
  "character_conds filters = character_filter_conds filters @ [deleted_cond filters]"

definition character_buildWhereClause :: "js_object \<Rightarrow> where_result" where
  "character_buildWhereClause filters =
     finish_where (foldl add_cond ([], []) (character_conds filters))"

section \<open>The databases\<close>

text \<open>
  A database connection is either unusable, in which case every query is rejected, or
  holds the rows of the table the repository reads (\<open>accounts\<close> for the login database,
  \<open>characters\<close> for the game database). A numeric column is \<open>None\<close> where the row has
  SQL \<open>NULL\<close>, which the driver hands to the code as \<open>null\<close>.
\<close>

datatype 'r conn = Down | Up "'r list"

record account_row =
  login :: string
  accessLevel :: "int option"
  lastactive :: "int option"
  lastIP :: "string option"
  lastHWID :: "string option"
  lastServerId :: "int option"
  ban_expire :: "int option"
  email :: "string option"

record character_row =
  obj_Id :: int
  char_name :: string
  account_name :: string
  sex :: "int option"
  createtime :: "int option"
  deletetime :: "int option"
  lastAccess :: "int option"
  online :: "int option"
  onlinetime :: "int option"
  clanid :: "int option"

text \<open>
  The SQL engine itself is not part of the repository. What the list queries need of
  it is taken as given: which rows a \<open>WHERE\<close> text with its bound values selects, how
  \<open>ORDER BY field direction\<close> arranges rows, and when the collation of a text column
  takes two strings as equal.
\<close>

record 'r engine =
  where_holds :: "string \<Rightarrow> jsval list \<Rightarrow> 'r \<Rightarrow> bool"
  order_by :: "string \<Rightarrow> string \<Rightarrow> 'r list \<Rightarrow> 'r list"
  text_eq :: "string \<Rightarrow> string \<Rightarrow> bool"

text \<open>\<^verbatim>\<open>SELECT COUNT(*) as total FROM t ${whereClause}\<close> with the replacements \<open>ps\<close>.\<close>

definition count_query :: "'r engine \<Rightarrow> 'r conn \<Rightarrow> string \<Rightarrow> jsval list \<Rightarrow> error + nat" where
  "count_query eng db w ps =
     (case db of Down \<Rightarrow> Inl DbError
      | Up rows \<Rightarrow> Inr (length (filter (where_holds eng w ps) rows)))"

text \<open>
  \<^verbatim>\<open>SELECT ... FROM t ${whereClause} ORDER BY ${sortField} ${order} LIMIT ? OFFSET ?\<close> with
  the replacements \<open>[...ps, limit, offset]\<close>. The server rejects a statement whose
  limit or offset is not a non-negative integer.
\<close>

definition data_query ::
  "'r engine \<Rightarrow> 'r conn \<Rightarrow> string \<Rightarrow> jsval list \<Rightarrow> string \<Rightarrow> string \<Rightarrow> jsnum \<Rightarrow> jsnum \<Rightarrow> error + 'r list" where
  "data_query eng db w ps sortField order lmt ofs =
     (case db of Down \<Rightarrow> Inl DbError
      | Up rows \<Rightarrow>
          (case (lmt, ofs) of
             (Fin l, Fin k) \<Rightarrow>
               if 0 \<le> l \<and> 0 \<le> k
               then Inr (take (nat l) (drop (nat k)
                      (order_by eng sortField order (filter (where_holds eng w ps) rows))))
               else Inl DbError
           | _ \<Rightarrow> Inl DbError))"

section \<open>Record enrichment\<close>

text \<open>
  Column values in expressions: truthiness, the number a column stands for in arithmetic
  (\<open>null\<close> counts as 0), and the comparison \<open>x > n\<close>.
\<close>

definition col_truthy :: "int option \<Rightarrow> bool" where
  "col_truthy x = (case x of None \<Rightarrow> False | Some n \<Rightarrow> n \<noteq> 0)"

definition col_int :: "int option \<Rightarrow> int" where
  "col_int x = (case x of None \<Rightarrow> 0 | Some n \<Rightarrow> n)"

definition col_gt :: "int option \<Rightarrow> int \<Rightarrow> bool" where
  "col_gt x n = (col_int x > n)"

text \<open>\<open>new Date(x * 1000).toISOString()\<close> for a column value \<open>x\<close>.\<close>

definition iso_date :: "int option \<Rightarrow> error + jsval" where
  "iso_date x =
     (case toISOString (col_int x * 1000) of Inl e \<Rightarrow> Inl e | Inr s \<Rightarrow> Inr (Str s))"

text \<open>
  The enriched character: the row itself (the spread \<open>...character\<close>) and the derived
  fields.
\<close>

record character_info =
  character :: character_row
  createDate :: jsval
  deleteDate :: jsval
  lastAccessDate :: jsval
  isOnline :: bool
  isDeleted :: bool
  gender :: string
  onlineTimeHours :: jsnum

definition enrichCharacterData :: "character_row \<Rightarrow> error + character_info" where
  "enrichCharacterData c =
     (case (if col_truthy (createtime c) then iso_date (createtime c) else Inr Null) of
        Inl e \<Rightarrow> Inl e | Inr cd \<Rightarrow>
      case (if col_truthy (deletetime c) \<and> col_gt (deletetime c) 0
            then iso_date (deletetime c) else Inr Null) of
        Inl e \<Rightarrow> Inl e | Inr dd \<Rightarrow>
      case (if col_truthy (lastAccess c) then iso_date (lastAccess c) else Inr Null) of
        Inl e \<Rightarrow> Inl e | Inr la \<Rightarrow>
      Inr \<lparr>character = c,
           createDate = cd,
           deleteDate = dd,
           lastAccessDate = la,
           isOnline = (online c = Some 1),
           isDeleted = col_gt (deletetime c) 0,
           gender = (if sex c = Some 1 then ''male'' else ''female''),
           onlineTimeHours = Math_floor (js_div (Fin (col_int (onlinetime c))) (Fin 3600))\<rparr>)"

text \<open>The enriched account of the list mapping in \<open>getAccounts\<close>.\<close>

record account_info =
  account :: account_row
  lastactiveDate :: jsval
  isBanned :: bool
  banExpireDate :: jsval

definition enrich_account :: "int \<Rightarrow> account_row \<Rightarrow> error + account_info" where
  "enrich_account now a =
     (case (if col_truthy (lastactive a) then iso_date (lastactive a) else Inr Null) of
        Inl e \<Rightarrow> Inl e | Inr la \<Rightarrow>
      case (if col_gt (ban_expire a) now then iso_date (ban_expire a) else Inr Null) of
        Inl e \<Rightarrow> Inl e | Inr be \<Rightarrow>
      Inr \<lparr>account = a,
           lastactiveDate = la,
           isBanned = col_gt (ban_expire a) now,
           banExpireDate = be\<rparr>)"

text \<open>\<open>Array.prototype.map\<close> with a callback that may throw: the first exception ends it.\<close>

fun map_result :: "('a \<Rightarrow> error + 'b) \<Rightarrow> 'a list \<Rightarrow> error + 'b list" where
  "map_result f [] = Inr []"
| "map_result f (x # xs) =
     (case f x of Inl e \<Rightarrow> Inl e
      | Inr y \<Rightarrow> (case map_result f xs of Inl e \<Rightarrow> Inl e | Inr ys \<Rightarrow> Inr (y # ys)))"

section \<open>Pagination engine and repositories\<close>

text \<open>
  The \<open>options\<close> argument of the list operations. A property that is \<open>undefined\<close> takes
  the default of the destructuring pattern.
\<close>

record options =
  o_page :: "jsnum option"
  o_limit :: "jsnum option"
  o_filters :: "js_object option"
  o_sortBy :: jsval
  o_sortOrder :: jsval

record pagination =
  total :: jsnum
  page :: jsnum
  limit :: jsnum
  totalPages :: jsnum

record 'a listing =
  items :: "'a list"
  pagination :: pagination

text \<open>\<open>validSortFields.includes(sortBy) ? sortBy : fallback\<close>\<close>

definition sort_field :: "string list \<Rightarrow> string \<Rightarrow> jsval \<Rightarrow> string" where
  "sort_field validSortFields fallback sortBy =
     (case sortBy of
        Str s \<Rightarrow> if s \<in> set validSortFields then s else fallback
      | _ \<Rightarrow> fallback)"

text \<open>
  \<open>sortOrder.toLowerCase() === 'desc' ? 'DESC' : 'ASC'\<close>; a value without a
  \<open>toLowerCase\<close> method raises a \<open>TypeError\<close>.
\<close>

definition sort_order :: "jsval \<Rightarrow> error + string" where
  "sort_order sortOrder =
     (case sortOrder of
        Str s \<Rightarrow> Inr (if toLowerCase s = ''desc'' then ''DESC'' else ''ASC'')
      | _ \<Rightarrow> Inl TypeError)"

definition default_to :: "jsval \<Rightarrow> jsval \<Rightarrow> jsval" where
  "default_to v d = (if v = Undefined then d else v)"

definition account_sort_fields :: "string list" where
  "account_sort_fields =
     [''login'', ''lastactive'', ''accessLevel'', ''lastIP'', ''lastHWID'', ''lastServerId'',
      ''ban_expire'']"

definition character_sort_fields :: "string list" where
  "character_sort_fields =
     [''char_name'', ''account_name'', ''createtime'', ''lastAccess'', ''online'', ''clanid'',
      ''pvpkills'', ''pkkills'', ''karma'', ''onlinetime'']"

text \<open>\<open>offset = (page - 1) * limit\<close>\<close>

definition page_offset :: "jsnum \<Rightarrow> jsnum \<Rightarrow> jsnum" where
  "page_offset pg lm = js_mul (js_sub pg (Fin 1)) lm"

text \<open>The pagination block built from the count and the page and limit in use.\<close>

definition make_pagination :: "nat \<Rightarrow> jsnum \<Rightarrow> jsnum \<Rightarrow> pagination" where
  "make_pagination n pg lm =
     (let tot = parseInt (Num (Fin (int n)))
      in \<lparr>total = tot, page = parseInt (Num pg), limit = parseInt (Num lm),
           totalPages = Math_ceil (js_div tot lm)\<rparr>)"

text \<open>\<open>accountsDb.getAccounts(options)\<close>\<close>

definition getAccounts ::
  "account_row engine \<Rightarrow> int \<Rightarrow> account_row conn \<Rightarrow> options \<Rightarrow> error + account_info listing" where
  "getAccounts eng now db opts =
     (let pg = (case o_page opts of None \<Rightarrow> Fin 1 | Some p \<Rightarrow> p);
          lm = (case o_limit opts of None \<Rightarrow> Fin 10 | Some l \<Rightarrow> l);
          filters = (case o_filters opts of None \<Rightarrow> empty_object | Some f \<Rightarrow> f);
          sortBy = default_to (o_sortBy opts) (Str ''login'');
          sortOrder = default_to (o_sortOrder opts) (Str ''asc'');
          offset = page_offset pg lm;
          w = account_buildWhereClause now filters;
          sortField = sort_field account_sort_fields ''login'' sortBy
      in case sort_order sortOrder of Inl e \<Rightarrow> Inl e | Inr order \<Rightarrow>
         case count_query eng db (whereClause w) (params w) of Inl e \<Rightarrow> Inl e | Inr n \<Rightarrow>
         case data_query eng db (whereClause w) (params w) sortField order lm offset of
           Inl e \<Rightarrow> Inl e | Inr accountsData \<Rightarrow>
         case map_result (enrich_account now) accountsData of Inl e \<Rightarrow> Inl e | Inr accounts \<Rightarrow>
         Inr \<lparr>items = accounts, pagination = make_pagination n pg lm\<rparr>)"

text \<open>\<open>charactersDb.getCharacters(options)\<close>\<close>

definition getCharacters ::
  "character_row engine \<Rightarrow> character_row conn \<Rightarrow> options \<Rightarrow> error + character_info listing" where
  "getCharacters eng db opts =
     (let pg = (case o_page opts of None \<Rightarrow> Fin 1 | Some p \<Rightarrow> p);
          lm = (case o_limit opts of None \<Rightarrow> Fin 10 | Some l \<Rightarrow> l);
          filters = (case o_filters opts of None \<Rightarrow> empty_object | Some f \<Rightarrow> f);
          sortBy = default_to (o_sortBy opts) (Str ''char_name'');
          sortOrder = default_to (o_sortOrder opts) (Str ''asc'');
          offset = page_offset pg lm;
          w = character_buildWhereClause filters;
          sortField = sort_field character_sort_fields ''char_name'' sortBy
      in case sort_order sortOrder of Inl e \<Rightarrow> Inl e | Inr order \<Rightarrow>
         case count_query eng db (whereClause w) (params w) of Inl e \<Rightarrow> Inl e | Inr n \<Rightarrow>
         case data_query eng db (whereClause w) (params w) sortField order lm offset of
           Inl e \<Rightarrow> Inl e | Inr charactersData \<Rightarrow>
         case map_result enrichCharacterData charactersData of Inl e \<Rightarrow> Inl e | Inr characters \<Rightarrow>
         Inr \<lparr>items = characters, pagination = make_pagination n pg lm\<rparr>)"

text \<open>
  \<open>charactersDb.exists(charName)\<close>:
  \<^verbatim>\<open>SELECT COUNT(*) as count FROM characters WHERE char_name = ? AND deletetime = 0\<close>
\<close>

definition characters_exists ::
  "character_row engine \<Rightarrow> character_row conn \<Rightarrow> string \<Rightarrow> error + bool" where
  "characters_exists eng db charName =
     (case db of Down \<Rightarrow> Inl DbError
      | Up rows \<Rightarrow>
          Inr (0 < length (filter (\<lambda>r. text_eq eng (char_name r) charName \<and> deletetime r = Some 0) rows)))"

text \<open>
  \<open>charactersDb.existsById(objId)\<close>:
  \<^verbatim>\<open>SELECT COUNT(*) as count FROM characters WHERE obj_Id = ? AND deletetime = 0\<close>
\<close>

definition characters_existsById :: "character_row conn \<Rightarrow> jsnum \<Rightarrow> error + bool" where
  "characters_existsById db objId =
     (case db of Down \<Rightarrow> Inl DbError
      | Up rows \<Rightarrow>
          Inr (0 < length (filter (\<lambda>r. Fin (obj_Id r) = objId \<and> deletetime r = Some 0) rows)))"


text \<open>\<open>accountsDb.exists(login)\<close>: \<^verbatim>\<open>SELECT COUNT(*) as count FROM accounts WHERE login = ?\<close>\<close>

definition accounts_exists ::
  "account_row engine \<Rightarrow> account_row conn \<Rightarrow> string \<Rightarrow> error + bool" where
  "accounts_exists eng db l =
     (case db of Down \<Rightarrow> Inl DbError
      | Up rows \<Rightarrow> Inr (0 < length (filter (\<lambda>r. text_eq eng (login r) l) rows)))"

section \<open>Route handlers\<close>

text \<open>
  A handler answers with \<open>res.json(body)\<close>, status 200, or with
  \<open>res.status(n).json({error: ...})\<close>; the text of an error body is not represented.
\<close>

datatype 'a response = Json 'a | Error_status nat

text \<open>\<open>if (c) filters.k = v\<close>\<close>

definition set_if :: "bool \<Rightarrow> string \<Rightarrow> jsval \<Rightarrow> js_object \<Rightarrow> js_object" where
  "set_if c k v filters = (if c then filters(k := v) else filters)"

text \<open>The filter object of \<open>GET /api/login/account/list\<close>, built from \<open>req.query\<close>.\<close>

definition account_list_filters :: "js_object \<Rightarrow> js_object" where
  "account_list_filters q =
     (set_if (q ''isBanned'' = Str ''true'') ''isBanned'' (Bool True)
      (set_if (truthy (q ''lastActiveTo'')) ''lastActiveTo'' (q ''lastActiveTo'')
      (set_if (truthy (q ''lastActiveFrom'')) ''lastActiveFrom'' (q ''lastActiveFrom'')
      (set_if (q ''accessLevel'' \<noteq> Undefined) ''accessLevel'' (q ''accessLevel'')
      (set_if (truthy (q ''lastServerId'')) ''lastServerId'' (q ''lastServerId'')
      (set_if (truthy (q ''lastHWID'')) ''lastHWID'' (q ''lastHWID'')
      (set_if (truthy (q ''lastIP'')) ''lastIP'' (q ''lastIP'')
      (set_if (truthy (q ''email'')) ''email'' (q ''email'')
      (set_if (truthy (q ''login'')) ''login'' (q ''login'')
       empty_object)))))))))"

text \<open>\<open>parseInt(page || 1, 10)\<close> and \<open>parseInt(limit || 10, 10)\<close>\<close>

definition list_page :: "jsval \<Rightarrow> jsnum" where
  "list_page raw = parseInt (js_or raw (Num (Fin 1)))"

definition list_limit :: "jsval \<Rightarrow> jsnum" where
  "list_limit raw = parseInt (js_or raw (Num (Fin 10)))"

definition account_list_options :: "js_object \<Rightarrow> options" where
  "account_list_options q =
     \<lparr>o_page = Some (list_page (q ''page'')),
      o_limit = Some (list_limit (q ''limit'')),
      o_filters = Some (account_list_filters q),
      o_sortBy = js_or (q ''sortBy'') (Str ''login''),
      o_sortOrder = js_or (q ''sortOrder'') (Str ''asc'')\<rparr>"

definition route_account_list ::
  "account_row engine \<Rightarrow> int \<Rightarrow> account_row conn \<Rightarrow> js_object \<Rightarrow> account_info listing response" where
  "route_account_list eng now db q =
     (case getAccounts eng now db (account_list_options q) of
        Inl e \<Rightarrow> Error_status 500
      | Inr result \<Rightarrow> Json result)"

text \<open>The filter object of \<open>GET /api/game/characters/list\<close>.\<close>

definition character_list_filters :: "js_object \<Rightarrow> js_object" where
  "character_list_filters q =
     (set_if (q ''deletedOnly'' = Str ''true'') ''deletedOnly'' (Str ''true'')
      (set_if (q ''sex'' \<noteq> Undefined) ''sex'' (q ''sex'')
      (set_if (truthy (q ''lastAccessBefore'')) ''lastAccessBefore'' (q ''lastAccessBefore'')
      (set_if (truthy (q ''lastAccessAfter'')) ''lastAccessAfter'' (q ''lastAccessAfter'')
      (set_if (truthy (q ''createdBefore'')) ''createdBefore'' (q ''createdBefore'')
      (set_if (truthy (q ''createdAfter'')) ''createdAfter'' (q ''createdAfter'')
      (set_if (truthy (q ''maxLevel'')) ''maxLevel'' (q ''maxLevel'')
      (set_if (truthy (q ''minLevel'')) ''minLevel'' (q ''minLevel'')
      (set_if (q ''online'' \<noteq> Undefined) ''online'' (q ''online'')
      (set_if (truthy (q ''clanid'')) ''clanid'' (q ''clanid'')
      (set_if (truthy (q ''account_name'')) ''account_name'' (q ''account_name'')
      (set_if (truthy (q ''char_name'')) ''char_name'' (q ''char_name'')
       empty_object))))))))))))"

definition character_list_options :: "js_object \<Rightarrow> options" where
  "character_list_options q =
     \<lparr>o_page = Some (list_page (q ''page'')),
      o_limit = Some (list_limit (q ''limit'')),
      o_filters = Some (character_list_filters q),
      o_sortBy = js_or (q ''sortBy'') (Str ''char_name''),
      o_sortOrder = js_or (q ''sortOrder'') (Str ''asc'')\<rparr>"

definition route_character_list ::
  "character_row engine \<Rightarrow> character_row conn \<Rightarrow> js_object \<Rightarrow> character_info listing response" where
  "route_character_list eng db q =
     (case getCharacters eng db (character_list_options q) of
        Inl e \<Rightarrow> Error_status 500
      | Inr result \<Rightarrow> Json result)"


text \<open>\<open>GET /api/game/characters/:charName/exists\<close>, whose body is \<open>{ exists }\<close>.\<close>

definition route_character_exists ::
  "character_row engine \<Rightarrow> character_row conn \<Rightarrow> string \<Rightarrow> bool response" where
  "route_character_exists eng db charName =
     (case characters_exists eng db charName of
        Inl e \<Rightarrow> Error_status 500
      | Inr b \<Rightarrow> Json b)"

text \<open>
  \<open>POST /api/login/account/:login/unban\<close>. The statement
  \<^verbatim>\<open>UPDATE accounts SET ban_expire = 0 WHERE login = ?\<close> changes the table; the handler
  returns its answer and the database after it. The body of the answer is
  \<open>{ success: true, message }\<close> with a fixed message.
\<close>

definition unban_update ::
  "account_row engine \<Rightarrow> account_row conn \<Rightarrow> string \<Rightarrow> error + account_row conn" where
  "unban_update eng db l =
     (case db of Down \<Rightarrow> Inl DbError
      | Up rows \<Rightarrow>
          Inr (Up (map (\<lambda>r. if text_eq eng (login r) l then r\<lparr>ban_expire := Some 0\<rparr> else r) rows)))"

record ack =
  success :: bool

definition route_unban ::
  "account_row engine \<Rightarrow> account_row conn \<Rightarrow> string \<Rightarrow> ack response \<times> account_row conn" where
  "route_unban eng db l =
     (case accounts_exists eng db l of
        Inl e \<Rightarrow> (Error_status 500, db)
      | Inr accountExists \<Rightarrow>
          if \<not> accountExists then (Error_status 404, db)
          else (case unban_update eng db l of
                  Inl e \<Rightarrow> (Error_status 500, db)
                | Inr db' \<Rightarrow> (Json \<lparr>success = True\<rparr>, db')))"

section \<open>Auxiliary notions for the proofs\<close>

text \<open>No condition text of the list contains the character.\<close>

definition no_char :: "char \<Rightarrow> cond list \<Rightarrow> bool" where
  "no_char ch cs = (\<forall>c\<in>set cs. ch \<notin> set (fst c))"

text \<open>
  Sample data for the concrete instances below: an engine whose \<open>WHERE\<close> accepts every
  row, which keeps the stored order and compares text exactly; a soft-deleted character;
  a banned account.
\<close>

definition plain_engine :: "'r engine" where
  "plain_engine = \<lparr>where_holds = (\<lambda>w ps r. True), order_by = (\<lambda>f d rs. rs), text_eq = (=)\<rparr>"

definition deleted_row :: character_row where
  "deleted_row = \<lparr>obj_Id = 7, char_name = ''Gone'', account_name = ''tester01'', sex = Some 1,
     createtime = Some 1600000000, deletetime = Some 1700000000, lastAccess = Some 1650000000,
     online = Some 0, onlinetime = Some 7200, clanid = None\<rparr>"

definition banned_account :: account_row where
  "banned_account = \<lparr>login = ''tester01'', accessLevel = Some 0, lastactive = None,
     lastIP = None, lastHWID = None, lastServerId = None, ban_expire = Some 1900000000,
     email = None\<rparr>"

definition acct :: "string \<Rightarrow> int option \<Rightarrow> int option \<Rightarrow> account_row" where
  "acct l la be = \<lparr>login = l, accessLevel = Some 0, lastactive = la, lastIP = None,
     lastHWID = None, lastServerId = None, ban_expire = be, email = None\<rparr>"

definition three_accounts :: "account_row list" where
  "three_accounts = [acct ''alice'' (Some 1700000000) (Some 0), acct ''bob'' None (Some 1900000000),
     acct ''carol'' (Some 0) (Some 100)]"

definition page_two :: options where
  "page_two = \<lparr>o_page = Some (Fin 2), o_limit = Some (Fin 2), o_filters = None,
     o_sortBy = Undefined, o_sortOrder = Undefined\<rparr>"


definition false_flags :: js_object where
  "false_flags = empty_object(''isBanned'' := Str ''false'', ''online'' := Str ''false'',
     ''deletedOnly'' := Str ''false'')"

text \<open>A derived date field holds \<open>null\<close> or a valid date-time string.\<close>

definition null_or_iso :: "jsval \<Rightarrow> bool" where
  "null_or_iso v = (case v of Null \<Rightarrow> True | Str s \<Rightarrow> valid_iso8601 s | _ \<Rightarrow> False)"

definition live_row :: character_row where
  "live_row = \<lparr>obj_Id = 8, char_name = ''Hero'', account_name = ''tester01'', sex = Some 0,
     createtime = Some 1600000000, deletetime = Some 0, lastAccess = None,
     online = Some 1, onlinetime = Some 7300, clanid = None\<rparr>"

section \<open>Properties of number parsing\<close>

text \<open>\<open>parseInt\<close> reads back the decimal numeral that \<open>String\<close> gives for an integer.\<close>

lemma of_char_digit_char: "d < 10 \<Longrightarrow> (of_char (digit_char d) :: nat) = 48 + d"
  by (simp add: digit_char_def)

lemma is_digit_not_ws: "is_digit c \<Longrightarrow> \<not> is_ws c \<and> c \<noteq> CHR ''-'' \<and> c \<noteq> CHR ''+''"
  by (auto simp: is_digit_def is_ws_def)

lemma digit_char_props:
  assumes "d < 10"
  shows "is_digit (digit_char d)" "digit_val (digit_char d) = d"
  using assms by (simp_all add: is_digit_def digit_val_def of_char_digit_char)

lemma digits_val_snoc: "digits_val acc (cs @ [c]) = 10 * digits_val acc cs + digit_val c"
  by (induction cs arbitrary: acc) simp_all

lemma nat_digits_props:
  "nat_digits n \<noteq> [] \<and> list_all is_digit (nat_digits n) \<and> digits_val 0 (nat_digits n) = n"
proof (induction n rule: nat_digits.induct)
  case (1 n)
  show ?case
  proof (cases "n < 10")
    case True
    then show ?thesis
      by (subst (1 2 3) nat_digits.simps) (simp add: digit_char_props)
  next
    case False
    then have ih: "nat_digits (n div 10) \<noteq> []" "list_all is_digit (nat_digits (n div 10))"
      "digits_val 0 (nat_digits (n div 10)) = n div 10"
      using 1 by simp_all
    have d: "n mod 10 < 10" by simp
    show ?thesis
      using False ih
      by (subst (1 2 3) nat_digits.simps) (simp add: digits_val_snoc digit_char_props [OF d])
  qed
qed

lemma parse_digits_nat_digits: "parse_digits (nat_digits n) = Some n"
proof -
  have tw: "takeWhile is_digit (nat_digits n) = nat_digits n"
    using nat_digits_props [of n] by (simp add: takeWhile_eq_all_conv list_all_iff)
  show ?thesis
    unfolding parse_digits_def Let_def tw using nat_digits_props [of n] by simp
qed

lemma nat_digits_hd: "\<exists>c cs. nat_digits n = c # cs \<and> is_digit c"
  using nat_digits_props [of n] by (cases "nat_digits n") simp_all

lemma parseInt_str_nat_digits: "parseInt_str (nat_digits n) = Fin (int n)"
proof -
  obtain c cs where e: "nat_digits n = c # cs" and d: "is_digit c"
    using nat_digits_hd by blast
  have "parse_digits (c # cs) = Some n"
    using parse_digits_nat_digits [of n] by (simp add: e)
  then show ?thesis
    using is_digit_not_ws [OF d] by (simp add: parseInt_str_def e)
qed

lemma parseInt_Fin: "parseInt (Num (Fin n)) = Fin n"
proof (cases "n < 0")
  case True
  have "\<not> is_ws CHR ''-''" by (simp add: is_ws_def)
  then show ?thesis
    using True by (simp add: parseInt_def num_to_string_def parseInt_str_def parse_digits_nat_digits)
next
  case False
  then show ?thesis
    by (simp add: parseInt_def num_to_string_def parseInt_str_nat_digits)
qed


section \<open>Properties of the calendar\<close>

text \<open>The first day of the next year is the length of the year away.\<close>

lemma div_succ:
  fixes a k :: int
  assumes "0 < k"
  shows "(a + 1) div k = a div k + (if (a + 1) mod k = 0 then 1 else 0)"
proof -
  have a: "a = k * (a div k) + a mod k" by simp
  have r: "0 \<le> a mod k" "a mod k < k" using assms by simp_all
  show ?thesis
  proof (cases "a mod k + 1 = k")
    case True
    have "a + 1 = k * (a div k) + (a mod k + 1)" using a by linarith
    also have "\<dots> = k * (a div k) + k" by (simp only: True)
    also have "\<dots> = k * (a div k + 1) + 0" by (simp only: distrib_left mult_1_right add_0_right)
    finally have e: "a + 1 = k * (a div k + 1) + 0" .
    have d: "(a + 1) div k = a div k + 1"
      by (rule int_div_pos_eq [OF e]) (use assms in simp_all)
    have m: "(a + 1) mod k = 0"
      by (rule int_mod_pos_eq [OF e]) (use assms in simp_all)
    show ?thesis using d m by simp
  next
    case False
    then have lt: "a mod k + 1 < k" using r by simp
    have e: "a + 1 = k * (a div k) + (a mod k + 1)" using a by linarith
    have d: "(a + 1) div k = a div k"
      by (rule int_div_pos_eq [OF e]) (use lt r in simp_all)
    have m: "(a + 1) mod k = a mod k + 1"
      by (rule int_mod_pos_eq [OF e]) (use lt r in simp_all)
    show ?thesis using d m lt r by simp
  qed
qed

lemma DayFromYear_Suc: "DayFromYear (y + 1) = DayFromYear y + DaysInYear y"
proof -
  have 4: "(y - 1968) div 4 = (y - 1969) div 4 + (if y mod 4 = 0 then 1 else 0)"
  proof -
    have "(y - 1968) mod 4 = (y - 4 * 492) mod 4" by simp
    also have "\<dots> = y mod 4" by (rule mod_diff_eq [symmetric, THEN trans]) simp
    finally have "(y - 1968) mod 4 = y mod 4" .
    then show ?thesis using div_succ [of 4 "y - 1969"] by simp
  qed
  have 100: "(y - 1900) div 100 = (y - 1901) div 100 + (if y mod 100 = 0 then 1 else 0)"
  proof -
    have "(y - 1900) mod 100 = (y - 100 * 19) mod 100" by simp
    also have "\<dots> = y mod 100" by (rule mod_diff_eq [symmetric, THEN trans]) simp
    finally have "(y - 1900) mod 100 = y mod 100" .
    then show ?thesis using div_succ [of 100 "y - 1901"] by simp
  qed
  have 400: "(y - 1600) div 400 = (y - 1601) div 400 + (if y mod 400 = 0 then 1 else 0)"
  proof -
    have "(y - 1600) mod 400 = (y - 400 * 4) mod 400" by simp
    also have "\<dots> = y mod 400" by (rule mod_diff_eq [symmetric, THEN trans]) simp
    finally have "(y - 1600) mod 400 = y mod 400" .
    then show ?thesis using div_succ [of 400 "y - 1601"] by simp
  qed
  have a: "y mod 400 = 0 \<Longrightarrow> y mod 100 = 0" by presburger
  have b: "y mod 100 = 0 \<Longrightarrow> y mod 4 = 0" by presburger
  have "DayFromYear (y + 1) =
      365 * (y - 1969) + (y - 1968) div 4 - (y - 1900) div 100 + (y - 1600) div 400"
    by (simp add: DayFromYear_def)
  also have "\<dots> = DayFromYear y + DaysInYear y"
    unfolding 4 100 400 DayFromYear_def DaysInYear_def using a b by auto
  finally show ?thesis .
qed


lemma DaysInYear_range: "DaysInYear y = 365 \<or> DaysInYear y = 366"
  by (simp add: DaysInYear_def)

lemma DayFromYear_mono: "a \<le> b \<Longrightarrow> DayFromYear a \<le> DayFromYear b"
proof (induction b rule: int_ge_induct)
  case base
  show ?case by simp
next
  case (step i)
  have "DayFromYear i \<le> DayFromYear (i + 1)"
    using DaysInYear_range [of i] by (auto simp: DayFromYear_Suc)
  with step show ?case by simp
qed

lemma DayFromYear_1970: "DayFromYear 1970 = 0"
  by (simp add: DayFromYear_def)

lemma DayFromYear_upper: "0 \<le> k \<Longrightarrow> DayFromYear (1970 + k) \<le> 366 * k"
proof (induction k rule: int_ge_induct)
  case base
  show ?case by (simp add: DayFromYear_1970)
next
  case (step i)
  have "DayFromYear (1970 + (i + 1)) = DayFromYear (1970 + i) + DaysInYear (1970 + i)"
    using DayFromYear_Suc [of "1970 + i"] by (simp add: add.assoc)
  then show ?case using step DaysInYear_range [of "1970 + i"] by auto
qed

lemma DayFromYear_lower: "k \<le> 0 \<Longrightarrow> DayFromYear (1970 + k) \<le> 365 * k"
proof (induction k rule: int_le_induct)
  case base
  show ?case by (simp add: DayFromYear_1970)
next
  case (step i)
  have "DayFromYear (1970 + (i - 1) + 1) = DayFromYear (1970 + (i - 1)) + DaysInYear (1970 + (i - 1))"
    by (rule DayFromYear_Suc)
  then have "DayFromYear (1970 + i) = DayFromYear (1970 + (i - 1)) + DaysInYear (1970 + (i - 1))"
    by simp
  then show ?case using step DaysInYear_range [of "1970 + (i - 1)"] by auto
qed

lemma year_search_bracket:
  "DayFromYear y \<le> d \<Longrightarrow>
   DayFromYear (year_search y d) \<le> d \<and> d < DayFromYear (year_search y d + 1)"
proof (induction y d rule: year_search.induct)
  case (1 y d)
  show ?case
  proof (cases "DayFromYear (y + 1) \<le> d")
    case True
    then show ?thesis using 1 by (subst (1 2) year_search.simps) simp
  next
    case False
    then show ?thesis using 1 by (subst (1 2) year_search.simps) simp
  qed
qed

text \<open>The year found for a day is the year whose days include it.\<close>

lemma YearFromDay_bracket:
  "DayFromYear (YearFromDay d) \<le> d \<and> d < DayFromYear (YearFromDay d + 1)"
proof -
  have "DayFromYear (1970 + (if 0 \<le> d then d div 366 else d div 365)) \<le> d"
  proof (cases "0 \<le> d")
    case True
    then have "0 \<le> d div 366" by simp
    then have "DayFromYear (1970 + d div 366) \<le> 366 * (d div 366)" by (rule DayFromYear_upper)
    also have "\<dots> \<le> d" by simp
    finally show ?thesis using True by simp
  next
    case False
    then have "d div 365 \<le> 0" by (simp add: div_int_pos_iff)
    then have "DayFromYear (1970 + d div 365) \<le> 365 * (d div 365)" by (rule DayFromYear_lower)
    also have "\<dots> \<le> d" by simp
    finally show ?thesis using False by simp
  qed
  then show ?thesis unfolding YearFromDay_def by (rule year_search_bracket)
qed

lemma YearFromDay_range:
  assumes "- 100000000 \<le> d" and "d \<le> 100000000"
  shows "- 271821 \<le> YearFromDay d \<and> YearFromDay d \<le> 275760"
proof -
  note b = YearFromDay_bracket [of d]
  have hi: "YearFromDay d \<le> 275760"
  proof (rule ccontr)
    assume "\<not> YearFromDay d \<le> 275760"
    then have "275761 \<le> YearFromDay d" by simp
    then have "DayFromYear 275761 \<le> DayFromYear (YearFromDay d)" by (rule DayFromYear_mono)
    moreover have "100000000 < DayFromYear 275761" by (simp add: DayFromYear_def)
    ultimately show False using b assms by simp
  qed
  have lo: "- 271821 \<le> YearFromDay d"
  proof (rule ccontr)
    assume "\<not> - 271821 \<le> YearFromDay d"
    then have "YearFromDay d + 1 \<le> - 271821" by simp
    then have "DayFromYear (YearFromDay d + 1) \<le> DayFromYear (- 271821)" by (rule DayFromYear_mono)
    moreover have "DayFromYear (- 271821) \<le> - 100000000" by (simp add: DayFromYear_def)
    ultimately show False using b assms by simp
  qed
  show ?thesis using lo hi by simp
qed

section \<open>Properties of date-time strings\<close>

lemma nat_digits_length: "n < 10 ^ w \<Longrightarrow> 0 < w \<Longrightarrow> length (nat_digits n) \<le> w"
proof (induction n arbitrary: w rule: nat_digits.induct)
  case (1 n)
  show ?case
  proof (cases "n < 10")
    case True
    then show ?thesis using 1(3) by (subst nat_digits.simps) simp
  next
    case False
    obtain v where w: "w = Suc v" using 1(3) by (cases w) simp_all
    have "v \<noteq> 0" using False 1(2) w by (cases v) simp_all
    moreover have "n div 10 < 10 ^ v" using 1(2) w by (simp add: less_mult_imp_div_less)
    ultimately have "length (nat_digits (n div 10)) \<le> v" using 1(1) [OF False] by simp
    then show ?thesis using False w by (subst nat_digits.simps) simp
  qed
qed

lemma digit_val_zero: "digit_val CHR ''0'' = 0" "is_digit CHR ''0''"
  by (simp_all add: digit_val_def is_digit_def)

lemma digits_val_zeros: "digits_val 0 (replicate k CHR ''0'' @ ds) = digits_val 0 ds"
  by (induction k) (simp_all add: digit_val_zero)

lemma pad_props:
  assumes "n < 10 ^ w" and "0 < w"
  shows "length (pad w n) = w" "list_all is_digit (pad w n)" "digits_val 0 (pad w n) = n"
  using assms nat_digits_length [OF assms] nat_digits_props [of n]
  by (auto simp: pad_def digits_val_zeros list_all_iff digit_val_zero)

lemma digits_n_pad:
  assumes "n < 10 ^ w" and "0 < w"
  shows "digits_n w (pad w n @ r) = Some (n, r)"
  using pad_props [OF assms] by (simp add: digits_n_def)

lemma expect_Cons: "expect c (c # r) = Some r"
  by (simp add: expect_def)

lemma year_part_year_string:
  assumes "- 999999 \<le> y" and "y \<le> 999999"
  shows "year_part (year_string y @ r) = Some (y, r)"
proof (cases "0 \<le> y \<and> y \<le> 9999")
  case True
  then have n: "nat y < 10 ^ 4" by (auto simp: nat_less_iff)
  note p = pad_props [OF n]
  obtain c cs where e: "pad 4 (nat y) = c # cs"
    using p(1) by (cases "pad 4 (nat y)") simp_all
  have "is_digit c" using p(2) e by simp
  then have c: "c \<noteq> CHR ''+''" "c \<noteq> CHR ''-''" using is_digit_not_ws by blast+
  have "digits_n 4 (pad 4 (nat y) @ r) = Some (nat y, r)"
    using n by (intro digits_n_pad) simp_all
  then have "digits_n 4 (c # cs @ r) = Some (nat y, r)" by (simp add: e)
  then show ?thesis using True c by (simp add: year_part_def year_string_def e)
next
  case False
  have n: "nat \<bar>y\<bar> < 10 ^ 6" using assms by (auto simp: nat_less_iff)
  have d: "digits_n 6 (pad 6 (nat \<bar>y\<bar>) @ r) = Some (nat \<bar>y\<bar>, r)"
    using n by (intro digits_n_pad) simp_all
  show ?thesis using False d by (auto simp: year_part_def year_string_def)
qed

lemma month_of_day:
  assumes "l = 0 \<or> l = 1" and "0 \<le> dy" and "dy < 365 + l"
  shows "0 \<le> MonthFromDay l dy \<and> MonthFromDay l dy \<le> 11 \<and>
         month_start l (MonthFromDay l dy) \<le> dy \<and>
         dy < month_start l (MonthFromDay l dy) +
              (if MonthFromDay l dy = 1 then 28 + l
               else if MonthFromDay l dy \<in> {3, 5, 8, 10} then 30 else 31)"
proof -
  from assms(1) have l: "0 \<le> l" "l \<le> 1" by auto
  consider (m0) "dy < 31"
    | (m1) "31 \<le> dy" "dy < 59 + l"
    | (m2) "59 + l \<le> dy" "dy < 90 + l"
    | (m3) "90 + l \<le> dy" "dy < 120 + l"
    | (m4) "120 + l \<le> dy" "dy < 151 + l"
    | (m5) "151 + l \<le> dy" "dy < 181 + l"
    | (m6) "181 + l \<le> dy" "dy < 212 + l"
    | (m7) "212 + l \<le> dy" "dy < 243 + l"
    | (m8) "243 + l \<le> dy" "dy < 273 + l"
    | (m9) "273 + l \<le> dy" "dy < 304 + l"
    | (m10) "304 + l \<le> dy" "dy < 334 + l"
    | (m11) "334 + l \<le> dy"
    by linarith
  then show ?thesis
  proof cases
    case m0
    then have "MonthFromDay l dy = 0" using l by (simp add: MonthFromDay_def)
    then show ?thesis using m0 l assms(2,3) by (simp add: month_start_def)
  next
    case m1
    then have "MonthFromDay l dy = 1" using l by (simp add: MonthFromDay_def)
    then show ?thesis using m1 l assms(2,3) by (simp add: month_start_def)
  next
    case m2
    then have "MonthFromDay l dy = 2" using l by (simp add: MonthFromDay_def)
    then show ?thesis using m2 l assms(2,3) by (simp add: month_start_def)
  next
    case m3
    then have "MonthFromDay l dy = 3" using l by (simp add: MonthFromDay_def)
    then show ?thesis using m3 l assms(2,3) by (simp add: month_start_def)
  next
    case m4
    then have "MonthFromDay l dy = 4" using l by (simp add: MonthFromDay_def)
    then show ?thesis using m4 l assms(2,3) by (simp add: month_start_def)
  next
    case m5
    then have "MonthFromDay l dy = 5" using l by (simp add: MonthFromDay_def)
    then show ?thesis using m5 l assms(2,3) by (simp add: month_start_def)
  next
    case m6
    then have "MonthFromDay l dy = 6" using l by (simp add: MonthFromDay_def)
    then show ?thesis using m6 l assms(2,3) by (simp add: month_start_def)
  next
    case m7
    then have "MonthFromDay l dy = 7" using l by (simp add: MonthFromDay_def)
    then show ?thesis using m7 l assms(2,3) by (simp add: month_start_def)
  next
    case m8
    then have "MonthFromDay l dy = 8" using l by (simp add: MonthFromDay_def)
    then show ?thesis using m8 l assms(2,3) by (simp add: month_start_def)
  next
    case m9
    then have "MonthFromDay l dy = 9" using l by (simp add: MonthFromDay_def)
    then show ?thesis using m9 l assms(2,3) by (simp add: month_start_def)
  next
    case m10
    then have "MonthFromDay l dy = 10" using l by (simp add: MonthFromDay_def)
    then show ?thesis using m10 l assms(2,3) by (simp add: month_start_def)
  next
    case m11
    then have "MonthFromDay l dy = 11" using l by (simp add: MonthFromDay_def)
    then show ?thesis using m11 l assms(2,3) by (simp add: month_start_def)
  qed
qed

lemma time_within_day:
  fixes w :: int
  assumes "0 \<le> w" and "w < 86400000"
  shows "0 \<le> w div 3600000 \<and> w div 3600000 \<le> 23 \<and>
         0 \<le> (w div 60000) mod 60 \<and> (w div 60000) mod 60 \<le> 59 \<and>
         0 \<le> (w div 1000) mod 60 \<and> (w div 1000) mod 60 \<le> 59 \<and>
         0 \<le> w mod 1000 \<and> w mod 1000 \<le> 999 \<and>
         w div 3600000 * 3600000 + (w div 60000) mod 60 * 60000 + (w div 1000) mod 60 * 1000
           + w mod 1000 = w"
proof -
  define h where "h = w div 3600000"
  define q where "q = w div 60000"
  define r where "r = w div 1000"
  define mi where "mi = q mod 60"
  define se where "se = r mod 60"
  define ms where "ms = w mod 1000"
  have e1: "q div 60 = h"
    unfolding q_def h_def by (simp add: div_mult2_eq [symmetric])
  have e2: "r div 60 = q"
    unfolding r_def q_def by (simp add: div_mult2_eq [symmetric])
  have s1: "r * 1000 + ms = w"
    unfolding r_def ms_def by (rule div_mult_mod_eq)
  have s2: "q * 60 + se = r"
    unfolding se_def e2 [symmetric] by (rule div_mult_mod_eq)
  have s3: "h * 60 + mi = q"
    unfolding mi_def e1 [symmetric] by (rule div_mult_mod_eq)
  have b1: "0 \<le> ms" "ms < 1000"
    unfolding ms_def by (rule pos_mod_sign, simp, rule pos_mod_bound, simp)
  have b2: "0 \<le> se" "se < 60"
    unfolding se_def by (rule pos_mod_sign, simp, rule pos_mod_bound, simp)
  have b3: "0 \<le> mi" "mi < 60"
    unfolding mi_def by (rule pos_mod_sign, simp, rule pos_mod_bound, simp)
  have sum: "h * 3600000 + mi * 60000 + se * 1000 + ms = w"
    using s1 s2 s3 by linarith
  have h: "0 \<le> h" "h \<le> 23"
    using sum b1 b2 b3 assms by linarith+
  have "0 \<le> h \<and> h \<le> 23 \<and> 0 \<le> mi \<and> mi \<le> 59 \<and> 0 \<le> se \<and> se \<le> 59 \<and>
      0 \<le> ms \<and> ms \<le> 999 \<and> h * 3600000 + mi * 60000 + se * 1000 + ms = w"
    using h b1 b2 b3 sum by linarith
  then show ?thesis
    unfolding h_def mi_def se_def ms_def q_def r_def .
qed

lemma digits_n_pad2: "n < 100 \<Longrightarrow> digits_n 2 (pad 2 n @ r) = Some (n, r)"
  by (rule digits_n_pad) simp_all

lemma digits_n_pad3: "n < 1000 \<Longrightarrow> digits_n 3 (pad 3 n @ r) = Some (n, r)"
  by (rule digits_n_pad) simp_all

lemma days_in_month_len:
  assumes "0 \<le> m" and "m \<le> 11"
  shows "int (days_in_month y (nat (m + 1))) =
     (if m = 1 then 28 + leap y else if m \<in> {3, 5, 8, 10} then 30 else 31)"
proof -
  have "m = 0 \<or> m = 1 \<or> m = 2 \<or> m = 3 \<or> m = 4 \<or> m = 5 \<or> m = 6 \<or> m = 7 \<or> m = 8 \<or> m = 9
      \<or> m = 10 \<or> m = 11" using assms by presburger
  then show ?thesis
    by (elim disjE) (simp_all add: days_in_month_def leap_def)
qed

text \<open>
  The text produced for a time value reads back as fields that are in range and denote
  that time value.
\<close>

lemma toISOString_fields:
  assumes "toISOString t = Inr s"
  shows "\<exists>f. parse_iso s = Some f \<and> iso_time f = t \<and>
           - 271821 \<le> iso_year f \<and> iso_year f \<le> 275760 \<and>
           1 \<le> iso_month f \<and> iso_month f \<le> 12 \<and>
           1 \<le> iso_day f \<and> iso_day f \<le> days_in_month (iso_year f) (iso_month f) \<and>
           iso_hour f \<le> 23 \<and> iso_minute f \<le> 59 \<and> iso_second f \<le> 59 \<and> iso_milli f \<le> 999"
proof -
  have r: "\<bar>t\<bar> \<le> 8640000000000000"
    using assms by (simp add: toISOString_def split: if_splits)
  define d where "d = t div msPerDay"
  define w where "w = t mod msPerDay"
  define y where "y = YearFromDay d"
  define dy where "dy = d - DayFromYear y"
  define m where "m = MonthFromDay (leap y) dy"
  define dt where "dt = dy - month_start (leap y) m + 1"
  define h where "h = w div 3600000"
  define mi where "mi = (w div 60000) mod 60"
  define se where "se = (w div 1000) mod 60"
  define ms where "ms = w mod 1000"
  have s: "s = year_string y @ ''-'' @ pad 2 (nat (m + 1)) @ ''-'' @ pad 2 (nat dt) @ ''T'' @
       pad 2 (nat h) @ '':'' @ pad 2 (nat mi) @ '':'' @ pad 2 (nat se) @ ''.'' @ pad 3 (nat ms) @ ''Z''"
    using assms r
    by (simp add: toISOString_def Let_def d_def w_def y_def dy_def m_def dt_def h_def mi_def
        se_def ms_def)
  have w: "0 \<le> w" "w < 86400000" by (simp_all add: w_def msPerDay_def)
  note tw = time_within_day [OF w, folded h_def mi_def se_def ms_def]
  have t: "t = d * msPerDay + w" by (simp add: d_def w_def)
  have d: "- 100000000 \<le> d" "d \<le> 100000000"
  proof -
    have "- 8640000000000000 \<le> t" "t \<le> 8640000000000000" using r by simp_all
    then have "- 8640000000000000 div msPerDay \<le> d" "d \<le> 8640000000000000 div msPerDay"
      unfolding d_def by (simp_all add: zdiv_mono1 msPerDay_def)
    then show "- 100000000 \<le> d" "d \<le> 100000000" by (simp_all add: msPerDay_def)
  qed
  have y: "- 271821 \<le> y" "y \<le> 275760"
    using YearFromDay_range [OF d] by (simp_all add: y_def)
  have br: "DayFromYear y \<le> d" "d < DayFromYear (y + 1)"
    using YearFromDay_bracket [of d] by (simp_all add: y_def)
  have dy: "0 \<le> dy" "dy < DaysInYear y"
    using br by (simp_all add: dy_def DayFromYear_Suc)
  have l: "leap y = 0 \<or> leap y = 1" by (simp add: leap_def)
  have dl: "dy < 365 + leap y"
    using dy DaysInYear_range [of y] by (auto simp: leap_def)
  note md = month_of_day [OF l dy(1) dl, folded m_def]
  have m: "0 \<le> m" "m \<le> 11" using md by simp_all
  have dt: "1 \<le> dt" "nat dt \<le> days_in_month y (nat (m + 1))"
  proof -
    show "1 \<le> dt" using md by (simp add: dt_def)
    have "dt \<le> (if m = 1 then 28 + leap y else if m \<in> {3, 5, 8, 10} then 30 else 31)"
      using md by (simp add: dt_def)
    then have "dt \<le> int (days_in_month y (nat (m + 1)))"
      by (simp only: days_in_month_len [OF m])
    then show "nat dt \<le> days_in_month y (nat (m + 1))" by simp
  qed
  have "days_in_month y (nat (m + 1)) \<le> 31" by (simp add: days_in_month_def)
  then have dt31: "dt \<le> 31" using dt(2) by linarith
  let ?f = "\<lparr>iso_year = y, iso_month = nat (m + 1), iso_day = nat dt, iso_hour = nat h,
     iso_minute = nat mi, iso_second = nat se, iso_milli = nat ms\<rparr>"
  have n2: "nat (m + 1) < 100" "nat dt < 100" "nat h < 100" "nat mi < 100"
    "nat se < 100" and n3: "nat ms < 1000"
    using m dt31 dt(1) tw by (auto simp: nat_less_iff)
  have yr: "- 999999 \<le> y" "y \<le> 999999" using y by simp_all
  have p: "parse_iso s = Some ?f"
    unfolding s parse_iso_def
    by (simp add: year_part_year_string [OF yr] expect_Cons digits_n_pad2 digits_n_pad3 n2 n3)
  have "iso_time ?f = (DayFromYear y + dy) * msPerDay + w"
    using m dt(1) tw by (simp add: iso_time_def dt_def m_def h_def mi_def se_def ms_def)
  then have it: "iso_time ?f = t" by (simp add: t dy_def)
  show ?thesis
    using p it y m dt tw by (intro exI [of _ ?f]) (auto simp: nat_le_iff)
qed

lemma toISOString_valid: "toISOString t = Inr s \<Longrightarrow> valid_iso8601 s"
  using toISOString_fields [of t s] by (auto simp: valid_iso8601_def)

lemma toISOString_error: "toISOString t = Inl e \<Longrightarrow> e = RangeError \<and> 8640000000000000 < \<bar>t\<bar>"
  by (simp add: toISOString_def Let_def split: if_splits)

section \<open>Properties of the timestamp parser\<close>

lemma parseTimestamp_falsy: "\<not> truthy v \<Longrightarrow> parseTimestamp v = Null"
  by (simp add: parseTimestamp_def)

lemma parseTimestamp_number:
  assumes "truthy v" and "\<not> (case v of Str s \<Rightarrow> is_date_shape s | _ \<Rightarrow> False)"
  shows "parseTimestamp v = (if parseInt v = NaN then Null else Num (parseInt v))"
  using assms by (simp add: parseTimestamp_def isNaN_def Let_def)

lemma Math_floor_div: "b \<noteq> 0 \<Longrightarrow> Math_floor (js_div (Fin a) (Fin b)) = Fin (a div b)"
  by (simp add: floor_divide_of_int_eq)

lemma digits_n_exact:
  "length ds = n \<Longrightarrow> list_all is_digit ds \<Longrightarrow> digits_n n (ds @ r) = Some (digits_val 0 ds, r)"
  by (simp add: digits_n_def)

lemma date_shape_split:
  assumes "is_date_shape s"
  shows "s = take 4 s @ CHR ''-'' # take 2 (drop 5 s) @ CHR ''-'' # drop 8 s"
proof -
  have l: "length s = 10" and a: "s ! 4 = CHR ''-''" and b: "s ! 7 = CHR ''-''"
    using assms by (simp_all add: is_date_shape_def)
  have 1: "drop 4 s = s ! 4 # drop 5 s"
    using l Cons_nth_drop_Suc [of 4 s] by simp
  have 2: "drop 7 s = s ! 7 # drop 8 s"
    using l Cons_nth_drop_Suc [of 7 s] by simp
  have 3: "drop 5 s = take 2 (drop 5 s) @ drop 7 s"
    using append_take_drop_id [of 2 "drop 5 s"] by simp
  have "s = take 4 s @ drop 4 s" by simp
  also have "\<dots> = take 4 s @ CHR ''-'' # drop 5 s" by (simp only: 1 a)
  also have "\<dots> = take 4 s @ CHR ''-'' # take 2 (drop 5 s) @ drop 7 s" using 3 by simp
  also have "\<dots> = take 4 s @ CHR ''-'' # take 2 (drop 5 s) @ CHR ''-'' # drop 8 s"
    by (simp only: 2 b)
  finally show ?thesis .
qed

text \<open>
  For a string of the date shape that names a month and a day of that month,
  \<open>parseTimestamp\<close> gives the seconds of the time value that the string, completed with
  the time \<open>00:00:00.000\<close> UTC, denotes: the fields read from the completed string are
  those of the date, and their time value is a whole number of seconds.
\<close>

lemma parseTimestamp_date:
  assumes "is_date_shape s"
    and "m = digits_val 0 (take 2 (drop 5 s))" and "d = digits_val 0 (drop 8 s)"
    and "1 \<le> m" and "m \<le> 12" and "1 \<le> d"
    and "d \<le> days_in_month (int (digits_val 0 (take 4 s))) m"
  shows "\<exists>f. parse_iso (s @ ''T00:00:00.000Z'') = Some f \<and>
           iso_month f = m \<and> iso_day f = d \<and> iso_time f mod 1000 = 0 \<and>
           parseTimestamp (Str s) = Num (Fin (iso_time f div 1000))"
proof -
  define y where "y = digits_val 0 (take 4 s)"
  let ?f = "\<lparr>iso_year = int y, iso_month = m, iso_day = d, iso_hour = 0, iso_minute = 0,
     iso_second = 0, iso_milli = 0\<rparr>"
  have sh: "length s = 10" "list_all is_digit (take 4 s)" "list_all is_digit (take 2 (drop 5 s))"
    "list_all is_digit (drop 8 s)"
    using assms(1) by (simp_all add: is_date_shape_def)
  obtain c cs where c: "take 4 s = c # cs"
    using sh(1) by (cases "take 4 s") simp_all
  have "is_digit c" using sh(2) c by simp
  then have sg: "c \<noteq> CHR ''+''" "c \<noteq> CHR ''-''" using is_digit_not_ws by blast+
  have yp: "year_part (take 4 s @ r) = Some (int y, r)" for r
  proof -
    have "digits_n 4 (take 4 s @ r) = Some (y, r)"
      unfolding y_def using sh by (intro digits_n_exact) simp_all
    then show ?thesis using sg by (simp add: year_part_def c)
  qed
  have d2: "digits_n 2 (take 2 (drop 5 s) @ r) = Some (m, r)" for r
    unfolding assms(2) using sh by (intro digits_n_exact) simp_all
  have d3: "digits_n 2 (drop 8 s @ r) = Some (d, r)" for r
    unfolding assms(3) using sh by (intro digits_n_exact) simp_all
  have z2: "digits_n 2 (CHR ''0'' # CHR ''0'' # r) = Some (0, r)" for r
    using digits_n_exact [of "''00''" 2 r] by (simp add: digit_val_zero)
  have z3: "digits_n 3 (CHR ''0'' # CHR ''0'' # CHR ''0'' # r) = Some (0, r)" for r
    using digits_n_exact [of "''000''" 3 r] by (simp add: digit_val_zero)
  have "parse_iso ((take 4 s @ CHR ''-'' # take 2 (drop 5 s) @ CHR ''-'' # drop 8 s)
      @ ''T00:00:00.000Z'') = Some ?f"
    by (simp add: parse_iso_def yp d2 d3 z2 z3 expect_Cons)
  then have p: "parse_iso (s @ ''T00:00:00.000Z'') = Some ?f"
    using date_shape_split [OF assms(1)] by simp
  have t: "iso_time ?f =
      (DayFromYear (int y) + month_start (leap (int y)) (int m - 1) + int d - 1) * msPerDay"
    by (simp add: iso_time_def)
  have md: "iso_time ?f mod 1000 = 0"
    unfolding t msPerDay_def by simp
  have ne: "s \<noteq> []" using sh(1) by auto
  have "days_in_month (int (digits_val 0 (take 4 s))) m \<le> 31"
    by (simp add: days_in_month_def)
  then have d31: "d \<le> 31" using assms(7) by linarith
  have g: "date_getTime s = Fin (iso_time ?f)"
    unfolding t using assms(4-6) d31
    by (simp add: date_getTime_def Let_def y_def [symmetric] assms(2,3) [symmetric])
  have fl: "Math_floor (js_div (Fin (iso_time ?f)) (Fin 1000)) = Fin (iso_time ?f div 1000)"
    by (rule Math_floor_div) simp
  have "parseTimestamp (Str s) = Num (Math_floor (js_div (date_getTime s) (Fin 1000)))"
    using assms(1) ne by (simp add: parseTimestamp_def)
  then have "parseTimestamp (Str s) = Num (Fin (iso_time ?f div 1000))"
    by (simp only: g fl)
  then show ?thesis using p md by (intro exI [of _ ?f]) simp
qed

text \<open>
  Claim C6 fails on the code: a string of the date shape that names no month of the
  calendar makes \<open>parseTimestamp\<close> return \<open>NaN\<close>, neither a timestamp nor \<open>null\<close>. The
  branch for numbers tests \<open>isNaN\<close> and returns \<open>null\<close>; the branch for dates does not.
\<close>

theorem parseTimestamp_invalid_date:
  "is_date_shape ''2023-13-01'' \<and> parseTimestamp (Str ''2023-13-01'') = Num NaN"
  by (simp add: parseTimestamp_def is_date_shape_def is_digit_def date_getTime_def digit_val_def)

section \<open>Properties of the predicate builder\<close>

lemma no_char_simps:
  "no_char ch []"
  "no_char ch (xs @ ys) = (no_char ch xs \<and> no_char ch ys)"
  "no_char ch (c # cs) = (ch \<notin> set (fst c) \<and> no_char ch cs)"
  "no_char ch (if b then xs else ys) = (if b then no_char ch xs else no_char ch ys)"
  by (auto simp: no_char_def)

lemma no_char_time_cond: "ch \<notin> set text \<Longrightarrow> no_char ch (time_cond text v)"
  by (simp add: time_cond_def no_char_def Let_def)

lemma foldl_add_cond_chars:
  "ch \<notin> set (fst acc) \<Longrightarrow> no_char ch cs \<Longrightarrow> ch \<notin> set '' AND '' \<Longrightarrow>
   ch \<notin> set (fst (foldl add_cond acc cs))"
  by (induction cs arbitrary: acc) (simp_all add: add_cond_def no_char_def)

text \<open>
  A text that ends in a character occurring nowhere else in the clause can only occur
  at the end of the clause.
\<close>

lemma sublist_last_char:
  assumes "c \<notin> set u"
  shows "sublist (v @ [c]) (u @ [c]) \<longleftrightarrow> suffix v u"
proof
  assume "sublist (v @ [c]) (u @ [c])"
  then obtain ps ss where e: "u @ [c] = ps @ (v @ [c]) @ ss"
    by (auto simp: sublist_def)
  show "suffix v u"
  proof (cases ss rule: rev_cases)
    case Nil
    with e have "u = ps @ v" by simp
    then show ?thesis by (simp add: suffix_def)
  next
    case (snoc ss' c')
    with e have "u @ [c] = (ps @ v @ [c] @ ss') @ [c']" by simp
    then have "u = ps @ v @ [c] @ ss'" by (simp only: append1_eq_conv)
    then have "c \<in> set u" by simp
    with assms show ?thesis by simp
  qed
next
  assume "suffix v u"
  then obtain ps where "u = ps @ v" by (auto simp: suffix_def)
  then have "u @ [c] = ps @ (v @ [c]) @ []" by simp
  then show "sublist (v @ [c]) (u @ [c])" unfolding sublist_def by blast
qed

lemma suffix_same_length:
  "length v = length f \<Longrightarrow> suffix v (p @ f) = (v = f)"
  by (auto simp: suffix_def)

lemma no_char_character_filter_conds: "no_char CHR ''0'' (character_filter_conds f)"
  by (simp add: character_filter_conds_def no_char_simps no_char_time_cond)

lemma no_char_account_filter_conds: "no_char CHR ''x'' (account_filter_conds f)"
  by (simp add: account_filter_conds_def no_char_simps no_char_time_cond)

lemma where_last:
  assumes "fst c \<noteq> []"
  shows "whereClause (finish_where (foldl add_cond ([], []) (cs @ [c]))) =
     ''WHERE '' @ (let a = fst (foldl add_cond ([], []) cs) in a @ (if a \<noteq> [] then '' AND '' else [])) @ fst c"
  using assms by (simp add: finish_where_def add_cond_def Let_def)

text \<open>
  The clause of the characters builder is some text without the digit \<open>0\<close>, followed by
  the \<open>deletetime\<close> condition.
\<close>

lemma character_where_shape:
  "\<exists>u. CHR ''0'' \<notin> set u \<and>
     whereClause (character_buildWhereClause filters) = u @ fst (deleted_cond filters)"
proof -
  define a where "a = fst (foldl add_cond ([], []) (character_filter_conds filters))"
  define u where "u = ''WHERE '' @ a @ (if a \<noteq> [] then '' AND '' else [])"
  have "CHR ''0'' \<notin> set a"
    unfolding a_def
    by (rule foldl_add_cond_chars) (simp_all add: no_char_character_filter_conds)
  then have "CHR ''0'' \<notin> set u"
    by (simp add: u_def)
  moreover have "whereClause (character_buildWhereClause filters) = u @ fst (deleted_cond filters)"
    unfolding character_buildWhereClause_def character_conds_def u_def a_def
    by (subst where_last) (simp_all add: deleted_cond_def Let_def)
  ultimately show ?thesis by blast
qed

lemma deleted_predicates:
  "(sublist ''`deletetime` > 0'' (whereClause (character_buildWhereClause filters))
      \<longleftrightarrow> filters ''deletedOnly'' = Str ''true'') \<and>
   (sublist ''`deletetime` = 0'' (whereClause (character_buildWhereClause filters))
      \<longleftrightarrow> filters ''deletedOnly'' \<noteq> Str ''true'')"
proof -
  obtain u where u0: "CHR ''0'' \<notin> set u"
    and w: "whereClause (character_buildWhereClause filters) = u @ fst (deleted_cond filters)"
    using character_where_shape by blast
  show ?thesis
  proof (cases "filters ''deletedOnly'' = Str ''true''")
    case True
    then have w': "whereClause (character_buildWhereClause filters) = (u @ ''`deletetime` > '') @ ''0''"
      by (simp add: w deleted_cond_def)
    have 1: "sublist (''`deletetime` > '' @ ''0'') ((u @ ''`deletetime` > '') @ ''0'')"
      by (subst sublist_last_char) (simp_all add: u0 suffix_same_length)
    have 2: "\<not> sublist (''`deletetime` = '' @ ''0'') ((u @ ''`deletetime` > '') @ ''0'')"
      by (subst sublist_last_char) (simp_all add: u0 suffix_same_length)
    show ?thesis using True 1 2 by (simp add: w')
  next
    case False
    then have w': "whereClause (character_buildWhereClause filters) = (u @ ''`deletetime` = '') @ ''0''"
      by (simp add: w deleted_cond_def)
    have 1: "sublist (''`deletetime` = '' @ ''0'') ((u @ ''`deletetime` = '') @ ''0'')"
      by (subst sublist_last_char) (simp_all add: u0 suffix_same_length)
    have 2: "\<not> sublist (''`deletetime` > '' @ ''0'') ((u @ ''`deletetime` = '') @ ''0'')"
      by (subst sublist_last_char) (simp_all add: u0 suffix_same_length)
    show ?thesis using False 1 2 by (simp add: w')
  qed
qed

text \<open>
  Claim C2. For every filter set given to the characters \<open>buildWhereClause\<close>, exactly
  one of the predicates \<^verbatim>\<open>`deletetime` = 0\<close> and \<^verbatim>\<open>`deletetime` > 0\<close> occurs in the
  produced \<open>WHERE\<close> clause: the second when \<open>deletedOnly\<close> is the string \<open>true\<close>, the
  first in every other case, and never both.
\<close>

theorem deleted_predicate_exclusive:
  "(sublist ''`deletetime` > 0'' (whereClause (character_buildWhereClause filters))
      \<longleftrightarrow> filters ''deletedOnly'' = Str ''true'') \<and>
   (sublist ''`deletetime` = 0'' (whereClause (character_buildWhereClause filters))
      \<longleftrightarrow> filters ''deletedOnly'' \<noteq> Str ''true'') \<and>
   \<not> (sublist ''`deletetime` > 0'' (whereClause (character_buildWhereClause filters)) \<and>
      sublist ''`deletetime` = 0'' (whereClause (character_buildWhereClause filters)))"
  using deleted_predicates [of filters] by blast

section \<open>Properties of the boolean flags\<close>

lemma account_where_banned:
  "sublist ''`ban_expire` > ?'' (whereClause (account_buildWhereClause now filters))
     \<longleftrightarrow> truthy (filters ''isBanned'')"
proof (cases "truthy (filters ''isBanned'')")
  case True
  then have e: "account_conds now filters =
      account_filter_conds filters @ [(''`ban_expire` > ?'', [Num (Fin now)])]"
    by (simp add: account_conds_def banned_cond_def)
  have "\<exists>p. whereClause (account_buildWhereClause now filters) = p @ ''`ban_expire` > ?''"
    unfolding account_buildWhereClause_def e
    by (subst where_last) (simp_all only: fst_conv append_assoc [symmetric], simp, blast)
  then obtain p where "whereClause (account_buildWhereClause now filters) = p @ ''`ban_expire` > ?''"
    by blast
  then have "sublist ''`ban_expire` > ?'' (whereClause (account_buildWhereClause now filters))"
    by (simp only: sublist_append_leftI)
  then show ?thesis using True by simp
next
  case False
  then have c: "account_conds now filters = account_filter_conds filters"
    by (simp add: account_conds_def banned_cond_def)
  have "CHR ''x'' \<notin> set (fst (foldl add_cond ([], []) (account_filter_conds filters)))"
    by (rule foldl_add_cond_chars) (simp_all add: no_char_account_filter_conds)
  then have "CHR ''x'' \<notin> set (whereClause (account_buildWhereClause now filters))"
    by (simp add: account_buildWhereClause_def c finish_where_def)
  moreover have "CHR ''x'' \<in> set ''`ban_expire` > ?''" by simp
  ultimately have "\<not> sublist ''`ban_expire` > ?'' (whereClause (account_buildWhereClause now filters))"
    using set_mono_sublist by blast
  then show ?thesis using False by simp
qed

lemma account_list_filters_isBanned:
  "account_list_filters q ''isBanned'' = (if q ''isBanned'' = Str ''true'' then Bool True else Undefined)"
  by (simp add: account_list_filters_def set_if_def empty_object_def)

lemma character_list_filters_deletedOnly:
  "character_list_filters q ''deletedOnly'' = (if q ''deletedOnly'' = Str ''true'' then Str ''true'' else Undefined)"
  by (simp add: character_list_filters_def set_if_def empty_object_def)

lemma character_list_filters_online:
  "character_list_filters q ''online'' = q ''online''"
  by (simp add: character_list_filters_def set_if_def empty_object_def)

lemma in_time_cond:
  "c \<in> set (time_cond text v) \<Longrightarrow> fst c = text"
  by (auto simp: time_cond_def Let_def split: if_splits)

lemma online_cond_iff:
  "(''`online` = ?'', [Num (Fin 1)]) \<in> set (character_conds filters) \<longleftrightarrow> filters ''online'' = Str ''true''"
  by (auto simp: character_conds_def character_filter_conds_def deleted_cond_def dest: in_time_cond)

lemma account_filters_absent:
  "q ''isBanned'' \<noteq> Str ''true'' \<Longrightarrow>
   account_list_filters q = account_list_filters (q(''isBanned'' := Undefined))"
  by (simp add: account_list_filters_def set_if_def)

lemma character_filters_absent:
  "q ''deletedOnly'' \<noteq> Str ''true'' \<Longrightarrow>
   character_list_filters q = character_list_filters (q(''deletedOnly'' := Undefined))"
  by (simp add: character_list_filters_def set_if_def)

text \<open>
  Claim C4. A boolean flag input counts as true only when the raw value is exactly the
  string \<open>true\<close>. For \<open>isBanned\<close> and \<open>deletedOnly\<close> any other raw value, \<open>false\<close> included,
  leaves the filter set as if the input were absent, and the predicates
  \<^verbatim>\<open>`ban_expire` > ?\<close> and \<^verbatim>\<open>`deletetime` > 0\<close> occur in the clause exactly for the raw
  value \<open>true\<close>. For \<open>online\<close> the condition bound to 1 is produced exactly for the value
  \<open>true\<close>.
\<close>

theorem boolean_flags:
  "(sublist ''`ban_expire` > ?''
        (whereClause (account_buildWhereClause now (account_list_filters q)))
      \<longleftrightarrow> q ''isBanned'' = Str ''true'') \<and>
   (q ''isBanned'' \<noteq> Str ''true'' \<longrightarrow>
      account_list_filters q = account_list_filters (q(''isBanned'' := Undefined))) \<and>
   (sublist ''`deletetime` > 0''
        (whereClause (character_buildWhereClause (character_list_filters q)))
      \<longleftrightarrow> q ''deletedOnly'' = Str ''true'') \<and>
   (q ''deletedOnly'' \<noteq> Str ''true'' \<longrightarrow>
      character_list_filters q = character_list_filters (q(''deletedOnly'' := Undefined))) \<and>
   ((''`online` = ?'', [Num (Fin 1)]) \<in> set (character_conds filters)
      \<longleftrightarrow> filters ''online'' = Str ''true'') \<and>
   ((''`online` = ?'', [Num (Fin 1)]) \<in> set (character_conds (character_list_filters q))
      \<longleftrightarrow> q ''online'' = Str ''true'')"
proof (intro conjI impI)
  show "sublist ''`ban_expire` > ?''
        (whereClause (account_buildWhereClause now (account_list_filters q)))
      \<longleftrightarrow> q ''isBanned'' = Str ''true''"
    by (simp add: account_where_banned account_list_filters_isBanned)
  show "sublist ''`deletetime` > 0''
        (whereClause (character_buildWhereClause (character_list_filters q)))
      \<longleftrightarrow> q ''deletedOnly'' = Str ''true''"
    using deleted_predicates [of "character_list_filters q"]
    by (simp add: character_list_filters_deletedOnly)
  show "(''`online` = ?'', [Num (Fin 1)]) \<in> set (character_conds filters)
      \<longleftrightarrow> filters ''online'' = Str ''true''"
    by (rule online_cond_iff)
  show "(''`online` = ?'', [Num (Fin 1)]) \<in> set (character_conds (character_list_filters q))
      \<longleftrightarrow> q ''online'' = Str ''true''"
    by (simp add: online_cond_iff character_list_filters_online)
next
  assume "q ''isBanned'' \<noteq> Str ''true''"
  then show "account_list_filters q = account_list_filters (q(''isBanned'' := Undefined))"
    by (rule account_filters_absent)
next
  assume "q ''deletedOnly'' \<noteq> Str ''true''"
  then show "character_list_filters q = character_list_filters (q(''deletedOnly'' := Undefined))"
    by (rule character_filters_absent)
qed

lemma false_flags_clauses:
  "account_buildWhereClause 1800000000 (account_list_filters false_flags) =
     \<lparr>whereClause = [], params = []\<rparr>"
  "character_buildWhereClause (character_list_filters false_flags) =
     \<lparr>whereClause = ''WHERE `online` = ? AND `deletetime` = 0'', params = [Num (Fin 0)]\<rparr>"
  by code_simp+

theorem boolean_flags_witness:
  "false_flags ''isBanned'' \<noteq> Str ''true'' \<and> false_flags ''deletedOnly'' \<noteq> Str ''true'' \<and>
   false_flags ''online'' \<noteq> Str ''true'' \<and>
   \<not> sublist ''`ban_expire` > ?''
        (whereClause (account_buildWhereClause 1800000000 (account_list_filters false_flags))) \<and>
   \<not> sublist ''`deletetime` > 0''
        (whereClause (character_buildWhereClause (character_list_filters false_flags))) \<and>
   (''`online` = ?'', [Num (Fin 1)]) \<notin> set (character_conds (character_list_filters false_flags)) \<and>
   account_list_filters false_flags = account_list_filters (false_flags(''isBanned'' := Undefined)) \<and>
   character_list_filters false_flags =
     character_list_filters (false_flags(''deletedOnly'' := Undefined)) \<and>
   account_buildWhereClause 1800000000 (account_list_filters false_flags) =
     \<lparr>whereClause = [], params = []\<rparr> \<and>
   character_buildWhereClause (character_list_filters false_flags) =
     \<lparr>whereClause = ''WHERE `online` = ? AND `deletetime` = 0'', params = [Num (Fin 0)]\<rparr>"
proof -
  have a: "false_flags ''isBanned'' \<noteq> Str ''true''" "false_flags ''deletedOnly'' \<noteq> Str ''true''"
    "false_flags ''online'' \<noteq> Str ''true''"
    by (simp_all add: false_flags_def)
  note t = boolean_flags [of 1800000000 false_flags "character_list_filters false_flags"]
  from t a have 1: "\<not> sublist ''`ban_expire` > ?''
        (whereClause (account_buildWhereClause 1800000000 (account_list_filters false_flags)))"
    by blast
  from t a have 2: "\<not> sublist ''`deletetime` > 0''
        (whereClause (character_buildWhereClause (character_list_filters false_flags)))"
    by blast
  from t a have 3: "(''`online` = ?'', [Num (Fin 1)]) \<notin>
        set (character_conds (character_list_filters false_flags))"
    by blast
  from t a have 4: "account_list_filters false_flags =
        account_list_filters (false_flags(''isBanned'' := Undefined))"
    by blast
  from t a have 5: "character_list_filters false_flags =
        character_list_filters (false_flags(''deletedOnly'' := Undefined))"
    by blast
  show ?thesis
    by (intro conjI a 1 2 3 4 5 false_flags_clauses)
qed

section \<open>Properties of the page and limit inputs\<close>






section \<open>Properties of the pagination engine\<close>

lemma make_pagination_Fin:
  "l \<noteq> 0 \<Longrightarrow> make_pagination n (Fin p) (Fin l) =
     \<lparr>total = Fin (int n), page = Fin p, limit = Fin l,
      totalPages = Fin \<lceil>rat_of_int (int n) / rat_of_int l\<rceil>\<rparr>"
  by (simp add: make_pagination_def parseInt_Fin Let_def)

lemma map_result_length: "map_result f xs = Inr ys \<Longrightarrow> length ys = length xs"
  by (induction xs arbitrary: ys) (auto split: sum.splits)

lemma ceiling_pages:
  fixes n l :: int
  assumes "1 \<le> l"
  shows "(\<lceil>rat_of_int n / rat_of_int l\<rceil> - 1) * l < n \<and> n \<le> \<lceil>rat_of_int n / rat_of_int l\<rceil> * l"
proof -
  let ?q = "rat_of_int n / rat_of_int l"
  have lpos: "0 < rat_of_int l" using assms by simp
  have n: "rat_of_int n = ?q * rat_of_int l" using lpos by simp
  have "rat_of_int \<lceil>?q\<rceil> - 1 < ?q" by linarith
  then have "(rat_of_int \<lceil>?q\<rceil> - 1) * rat_of_int l < ?q * rat_of_int l"
    using lpos by (rule mult_strict_right_mono)
  then have "rat_of_int ((\<lceil>?q\<rceil> - 1) * l) < rat_of_int n"
    by (simp only: n [symmetric] of_int_mult of_int_diff of_int_1)
  then have a: "(\<lceil>?q\<rceil> - 1) * l < n" by (simp only: of_int_less_iff)
  have "?q \<le> rat_of_int \<lceil>?q\<rceil>" by linarith
  then have "?q * rat_of_int l \<le> rat_of_int \<lceil>?q\<rceil> * rat_of_int l"
    using lpos by (intro mult_right_mono) simp_all
  then have "rat_of_int n \<le> rat_of_int (\<lceil>?q\<rceil> * l)"
    by (simp only: n [symmetric] of_int_mult)
  then have b: "n \<le> \<lceil>?q\<rceil> * l" by (simp only: of_int_le_iff)
  show ?thesis using a b by simp
qed


lemma data_query_length:
  "data_query eng db w ps f d (Fin l) ofs = Inr rs \<Longrightarrow> length rs \<le> nat l"
  by (auto simp: data_query_def split: conn.splits ext.splits if_splits)

lemma getAccounts_result:
  assumes "getAccounts eng now db opts = Inr res"
    and "(case o_page opts of None \<Rightarrow> Fin 1 | Some x \<Rightarrow> x) = Fin p"
    and "(case o_limit opts of None \<Rightarrow> Fin 10 | Some x \<Rightarrow> x) = Fin l"
  shows "\<exists>n. pagination res = make_pagination n (Fin p) (Fin l) \<and> length (items res) \<le> nat l"
  using assms
  by (auto simp: getAccounts_def Let_def split: sum.splits
      dest!: data_query_length map_result_length)

lemma getCharacters_result:
  assumes "getCharacters eng db opts = Inr res"
    and "(case o_page opts of None \<Rightarrow> Fin 1 | Some x \<Rightarrow> x) = Fin p"
    and "(case o_limit opts of None \<Rightarrow> Fin 10 | Some x \<Rightarrow> x) = Fin l"
  shows "\<exists>n. pagination res = make_pagination n (Fin p) (Fin l) \<and> length (items res) \<le> nat l"
  using assms
  by (auto simp: getCharacters_def Let_def split: sum.splits
      dest!: data_query_length map_result_length)

lemma pagination_props:
  assumes "1 \<le> l" and "pg = make_pagination n (Fin p) (Fin l)"
  shows "\<exists>m tp. total pg = Fin m \<and> totalPages pg = Fin tp \<and> limit pg = Fin l \<and> page pg = Fin p
          \<and> tp = \<lceil>rat_of_int m / rat_of_int l\<rceil> \<and> (tp - 1) * l < m \<and> m \<le> tp * l
          \<and> totalPages pg = Math_ceil (js_div (total pg) (limit pg))"
  using assms ceiling_pages [of l "int n"]
  by (simp add: make_pagination_Fin)

text \<open>
  Claim C1. For every call of \<open>getAccounts\<close> or \<open>getCharacters\<close> with \<open>page \<ge> 1\<close> and
  \<open>limit \<ge> 1\<close>, the pagination block that is returned has
  \<open>totalPages = ceil(total / limit)\<close>, and at most \<open>limit\<close> rows are returned.
\<close>

theorem pagination_consistent:
  assumes "1 \<le> p" and "1 \<le> l"
    and "(case o_page opts of None \<Rightarrow> Fin 1 | Some x \<Rightarrow> x) = Fin p"
    and "(case o_limit opts of None \<Rightarrow> Fin 10 | Some x \<Rightarrow> x) = Fin l"
  shows "(getAccounts eng now db opts = Inr ra \<longrightarrow>
           (\<exists>m tp. total (pagination ra) = Fin m \<and> totalPages (pagination ra) = Fin tp
              \<and> limit (pagination ra) = Fin l \<and> page (pagination ra) = Fin p
              \<and> tp = \<lceil>rat_of_int m / rat_of_int l\<rceil> \<and> (tp - 1) * l < m \<and> m \<le> tp * l
              \<and> totalPages (pagination ra) =
                  Math_ceil (js_div (total (pagination ra)) (limit (pagination ra))))
           \<and> int (length (items ra)) \<le> l)
       \<and> (getCharacters eng' db' opts = Inr rc \<longrightarrow>
           (\<exists>m tp. total (pagination rc) = Fin m \<and> totalPages (pagination rc) = Fin tp
              \<and> limit (pagination rc) = Fin l \<and> page (pagination rc) = Fin p
              \<and> tp = \<lceil>rat_of_int m / rat_of_int l\<rceil> \<and> (tp - 1) * l < m \<and> m \<le> tp * l
              \<and> totalPages (pagination rc) =
                  Math_ceil (js_div (total (pagination rc)) (limit (pagination rc))))
           \<and> int (length (items rc)) \<le> l)"
proof (intro conjI impI)
  assume "getAccounts eng now db opts = Inr ra"
  from getAccounts_result [OF this assms(3,4)]
  obtain n where n: "pagination ra = make_pagination n (Fin p) (Fin l)"
    and len: "length (items ra) \<le> nat l" by blast
  show "\<exists>m tp. total (pagination ra) = Fin m \<and> totalPages (pagination ra) = Fin tp
              \<and> limit (pagination ra) = Fin l \<and> page (pagination ra) = Fin p
              \<and> tp = \<lceil>rat_of_int m / rat_of_int l\<rceil> \<and> (tp - 1) * l < m \<and> m \<le> tp * l
              \<and> totalPages (pagination ra) =
                  Math_ceil (js_div (total (pagination ra)) (limit (pagination ra)))"
    by (rule pagination_props [OF assms(2) n])
  show "int (length (items ra)) \<le> l" using len assms(2) by linarith
next
  assume "getCharacters eng' db' opts = Inr rc"
  from getCharacters_result [OF this assms(3,4)]
  obtain n where n: "pagination rc = make_pagination n (Fin p) (Fin l)"
    and len: "length (items rc) \<le> nat l" by blast
  show "\<exists>m tp. total (pagination rc) = Fin m \<and> totalPages (pagination rc) = Fin tp
              \<and> limit (pagination rc) = Fin l \<and> page (pagination rc) = Fin p
              \<and> tp = \<lceil>rat_of_int m / rat_of_int l\<rceil> \<and> (tp - 1) * l < m \<and> m \<le> tp * l
              \<and> totalPages (pagination rc) =
                  Math_ceil (js_div (total (pagination rc)) (limit (pagination rc)))"
    by (rule pagination_props [OF assms(2) n])
  show "int (length (items rc)) \<le> l" using len assms(2) by linarith
qed

lemma getAccounts_page_two:
  "getAccounts plain_engine 1800000000 (Up three_accounts) page_two =
     Inr \<lparr>items = [\<lparr>account = acct ''carol'' (Some 0) (Some 100), lastactiveDate = Null,
                     isBanned = False, banExpireDate = Null\<rparr>],
          pagination = \<lparr>total = Fin 3, page = Fin 2, limit = Fin 2, totalPages = Fin 2\<rparr>\<rparr>"
  by code_simp


lemma getCharacters_page_two:
  "getCharacters plain_engine (Up [live_row, deleted_row, live_row]) page_two =
     Inr \<lparr>items = [\<lparr>character = live_row, createDate = Str ''2020-09-13T12:26:40.000Z'',
                     deleteDate = Null, lastAccessDate = Null, isOnline = True, isDeleted = False,
                     gender = ''female'', onlineTimeHours = Fin 2\<rparr>],
          pagination = \<lparr>total = Fin 3, page = Fin 2, limit = Fin 2, totalPages = Fin 2\<rparr>\<rparr>"
  by code_simp

theorem pagination_consistent_witness:
  "(1::int) \<le> 2 \<and> o_page page_two = Some (Fin 2) \<and> o_limit page_two = Some (Fin 2) \<and>
   getAccounts plain_engine 1800000000 (Up three_accounts) page_two =
     Inr \<lparr>items = [\<lparr>account = acct ''carol'' (Some 0) (Some 100), lastactiveDate = Null,
                     isBanned = False, banExpireDate = Null\<rparr>],
          pagination = \<lparr>total = Fin 3, page = Fin 2, limit = Fin 2, totalPages = Fin 2\<rparr>\<rparr> \<and>
   getCharacters plain_engine (Up [live_row, deleted_row, live_row]) page_two =
     Inr \<lparr>items = [\<lparr>character = live_row, createDate = Str ''2020-09-13T12:26:40.000Z'',
                     deleteDate = Null, lastAccessDate = Null, isOnline = True, isDeleted = False,
                     gender = ''female'', onlineTimeHours = Fin 2\<rparr>],
          pagination = \<lparr>total = Fin 3, page = Fin 2, limit = Fin 2, totalPages = Fin 2\<rparr>\<rparr> \<and>
   Math_ceil (js_div (Fin 3) (Fin 2)) = Fin 2"
proof -
  have h: "(1::int) \<le> 2" by simp
  have p: "(case o_page page_two of None \<Rightarrow> Fin 1 | Some x \<Rightarrow> x) = Fin 2"
    and l: "(case o_limit page_two of None \<Rightarrow> Fin 10 | Some x \<Rightarrow> x) = Fin 2"
    by (simp_all add: page_two_def)
  show ?thesis
    using pagination_consistent [OF h h p l, where eng = plain_engine and now = 1800000000
        and db = "Up three_accounts" and eng' = plain_engine
        and db' = "Up [live_row, deleted_row, live_row]"
        and ra = "\<lparr>items = [\<lparr>account = acct ''carol'' (Some 0) (Some 100), lastactiveDate = Null,
                     isBanned = False, banExpireDate = Null\<rparr>],
          pagination = \<lparr>total = Fin 3, page = Fin 2, limit = Fin 2, totalPages = Fin 2\<rparr>\<rparr>"
        and rc = "\<lparr>items = [\<lparr>character = live_row, createDate = Str ''2020-09-13T12:26:40.000Z'',
                     deleteDate = Null, lastAccessDate = Null, isOnline = True, isDeleted = False,
                     gender = ''female'', onlineTimeHours = Fin 2\<rparr>],
          pagination = \<lparr>total = Fin 3, page = Fin 2, limit = Fin 2, totalPages = Fin 2\<rparr>\<rparr>"]
      getAccounts_page_two getCharacters_page_two p l
    by (simp add: page_two_def)
qed


text \<open>The total is the number of rows that the clause selects.\<close>

lemma getAccounts_rows:
  assumes "getAccounts eng now (Up rows) opts = Inr res"
    and "(case o_page opts of None \<Rightarrow> Fin 1 | Some x \<Rightarrow> x) = Fin p"
    and "(case o_limit opts of None \<Rightarrow> Fin 10 | Some x \<Rightarrow> x) = Fin l"
    and "w = account_buildWhereClause now (case o_filters opts of None \<Rightarrow> empty_object | Some f \<Rightarrow> f)"
  shows "total (pagination res) =
           Fin (int (length (filter (where_holds eng (whereClause w) (params w)) rows)))"
  using assms
  by (auto simp: getAccounts_def Let_def count_query_def data_query_def make_pagination_def
      parseInt_Fin page_offset_def split: sum.splits if_splits)

lemma getCharacters_rows:
  assumes "getCharacters eng (Up rows) opts = Inr res"
    and "(case o_page opts of None \<Rightarrow> Fin 1 | Some x \<Rightarrow> x) = Fin p"
    and "(case o_limit opts of None \<Rightarrow> Fin 10 | Some x \<Rightarrow> x) = Fin l"
    and "w = character_buildWhereClause (case o_filters opts of None \<Rightarrow> empty_object | Some f \<Rightarrow> f)"
  shows "total (pagination res) =
           Fin (int (length (filter (where_holds eng (whereClause w) (params w)) rows)))"
  using assms
  by (auto simp: getCharacters_def Let_def count_query_def data_query_def make_pagination_def
      parseInt_Fin page_offset_def split: sum.splits if_splits)

text \<open>
  The list operation returns when the connection is usable, the sort order is a string
  or absent, page and limit are at least 1, and no selected timestamp is out of range.
\<close>

lemma map_result_Inr:
  "(\<And>x. x \<in> set xs \<Longrightarrow> \<exists>y. f x = Inr y) \<Longrightarrow> \<exists>ys. map_result f xs = Inr ys"
proof (induction xs)
  case Nil
  show ?case by simp
next
  case (Cons x xs)
  then obtain y ys where "f x = Inr y" "map_result f xs = Inr ys"
    by (metis list.set_intros(1) list.set_intros(2))
  then show ?case by simp
qed

lemma getAccounts_returns:
  assumes "1 \<le> p" and "1 \<le> l"
    and "(case o_page opts of None \<Rightarrow> Fin 1 | Some x \<Rightarrow> x) = Fin p"
    and "(case o_limit opts of None \<Rightarrow> Fin 10 | Some x \<Rightarrow> x) = Fin l"
    and "o_sortOrder opts = Undefined \<or> (\<exists>s. o_sortOrder opts = Str s)"
    and "\<And>f d rs. set (order_by eng f d rs) \<subseteq> set rs"
    and "\<And>a. a \<in> set rows \<Longrightarrow> \<exists>i. enrich_account now a = Inr i"
  shows "\<exists>res. getAccounts eng now (Up rows) opts = Inr res"
proof -
  define w where "w = account_buildWhereClause now
    (case o_filters opts of None \<Rightarrow> empty_object | Some f \<Rightarrow> f)"
  obtain order where so: "sort_order (default_to (o_sortOrder opts) (Str ''asc'')) = Inr order"
    using assms(5) by (auto simp: sort_order_def default_to_def)
  define sel where "sel = take (nat l) (drop (nat ((p - 1) * l))
    (order_by eng (sort_field account_sort_fields ''login'' (default_to (o_sortBy opts) (Str ''login'')))
       order (filter (where_holds eng (whereClause w) (params w)) rows)))"
  have "set sel \<subseteq> set rows"
    unfolding sel_def using assms(6) set_take_subset set_drop_subset
    by (meson filter_is_subset subset_trans)
  then have "\<exists>ys. map_result (enrich_account now) sel = Inr ys"
    using assms(7) by (intro map_result_Inr) auto
  then obtain ys where ys: "map_result (enrich_account now) sel = Inr ys" by blast
  have dq: "data_query eng (Up rows) (whereClause w) (params w)
      (sort_field account_sort_fields ''login'' (default_to (o_sortBy opts) (Str ''login'')))
      order (Fin l) (page_offset (Fin p) (Fin l)) = Inr sel"
    using assms(1,2) by (simp add: data_query_def page_offset_def sel_def)
  show ?thesis
    using so dq ys assms(3,4)
    by (simp add: getAccounts_def Let_def count_query_def w_def [symmetric])
qed

lemma getCharacters_returns:
  assumes "1 \<le> p" and "1 \<le> l"
    and "(case o_page opts of None \<Rightarrow> Fin 1 | Some x \<Rightarrow> x) = Fin p"
    and "(case o_limit opts of None \<Rightarrow> Fin 10 | Some x \<Rightarrow> x) = Fin l"
    and "o_sortOrder opts = Undefined \<or> (\<exists>s. o_sortOrder opts = Str s)"
    and "\<And>f d rs. set (order_by eng f d rs) \<subseteq> set rs"
    and "\<And>a. a \<in> set rows \<Longrightarrow> \<exists>i. enrichCharacterData a = Inr i"
  shows "\<exists>res. getCharacters eng (Up rows) opts = Inr res"
proof -
  define w where "w = character_buildWhereClause
    (case o_filters opts of None \<Rightarrow> empty_object | Some f \<Rightarrow> f)"
  obtain order where so: "sort_order (default_to (o_sortOrder opts) (Str ''asc'')) = Inr order"
    using assms(5) by (auto simp: sort_order_def default_to_def)
  define sel where "sel = take (nat l) (drop (nat ((p - 1) * l))
    (order_by eng (sort_field character_sort_fields ''char_name'' (default_to (o_sortBy opts) (Str ''char_name'')))
       order (filter (where_holds eng (whereClause w) (params w)) rows)))"
  have "set sel \<subseteq> set rows"
    unfolding sel_def using assms(6) set_take_subset set_drop_subset
    by (meson filter_is_subset subset_trans)
  then have "\<exists>ys. map_result (enrichCharacterData) sel = Inr ys"
    using assms(7) by (intro map_result_Inr) auto
  then obtain ys where ys: "map_result (enrichCharacterData) sel = Inr ys" by blast
  have dq: "data_query eng (Up rows) (whereClause w) (params w)
      (sort_field character_sort_fields ''char_name'' (default_to (o_sortBy opts) (Str ''char_name'')))
      order (Fin l) (page_offset (Fin p) (Fin l)) = Inr sel"
    using assms(1,2) by (simp add: data_query_def page_offset_def sel_def)
  show ?thesis
    using so dq ys assms(3,4)
    by (simp add: getCharacters_def Let_def count_query_def w_def [symmetric])
qed

section \<open>Properties of sorting\<close>

lemma sort_field_fallback:
  "sortBy \<notin> Str ` set valid \<Longrightarrow> sort_field valid fallback (default_to sortBy (Str fallback)) = fallback"
  by (auto simp: sort_field_def default_to_def split: jsval.splits)

lemma sort_field_default:
  "sort_field valid fallback (default_to (Str fallback) (Str fallback)) = fallback"
  by (simp add: sort_field_def default_to_def)

lemma sort_order_fallback:
  "toLowerCase s \<noteq> ''desc'' \<Longrightarrow> sort_order (default_to (Str s) (Str ''asc'')) = Inr ''ASC''"
  by (simp add: sort_order_def default_to_def)

lemma sort_order_asc: "sort_order (default_to (Str ''asc'') (Str ''asc'')) = Inr ''ASC''"
  by (simp add: sort_order_def default_to_def toLowerCase_def lower_char_def)

text \<open>
  Claim C5. For every \<open>sortBy\<close> outside the allow-list, \<open>getAccounts\<close> sorts by \<open>login\<close>
  and \<open>getCharacters\<close> by \<open>char_name\<close>, doing exactly what they do when that field is
  asked for, so without an error of their own; and for every \<open>sortOrder\<close> string whose
  lower-case form is not \<open>desc\<close> the order is \<open>ASC\<close>.
\<close>

theorem sort_fallback:
  "(sortBy \<notin> Str ` set account_sort_fields \<longrightarrow>
      sort_field account_sort_fields ''login'' sortBy = ''login'' \<and>
      getAccounts eng now db (opts\<lparr>o_sortBy := sortBy\<rparr>) =
      getAccounts eng now db (opts\<lparr>o_sortBy := Str ''login''\<rparr>)) \<and>
   (sortBy \<notin> Str ` set character_sort_fields \<longrightarrow>
      sort_field character_sort_fields ''char_name'' sortBy = ''char_name'' \<and>
      getCharacters eng' db' (opts\<lparr>o_sortBy := sortBy\<rparr>) =
      getCharacters eng' db' (opts\<lparr>o_sortBy := Str ''char_name''\<rparr>)) \<and>
   (toLowerCase s \<noteq> ''desc'' \<longrightarrow>
      sort_order (Str s) = Inr ''ASC'' \<and>
      getAccounts eng now db (opts\<lparr>o_sortOrder := Str s\<rparr>) =
      getAccounts eng now db (opts\<lparr>o_sortOrder := Str ''asc''\<rparr>) \<and>
      getCharacters eng' db' (opts\<lparr>o_sortOrder := Str s\<rparr>) =
      getCharacters eng' db' (opts\<lparr>o_sortOrder := Str ''asc''\<rparr>))"
proof (intro conjI impI)
  assume a: "sortBy \<notin> Str ` set account_sort_fields"
  then show "sort_field account_sort_fields ''login'' sortBy = ''login''"
    by (auto simp: sort_field_def split: jsval.splits)
  show "getAccounts eng now db (opts\<lparr>o_sortBy := sortBy\<rparr>) =
      getAccounts eng now db (opts\<lparr>o_sortBy := Str ''login''\<rparr>)"
    by (simp add: getAccounts_def sort_field_fallback [OF a] sort_field_default cong: sum.case_cong)
next
  assume a: "sortBy \<notin> Str ` set character_sort_fields"
  then show "sort_field character_sort_fields ''char_name'' sortBy = ''char_name''"
    by (auto simp: sort_field_def split: jsval.splits)
  show "getCharacters eng' db' (opts\<lparr>o_sortBy := sortBy\<rparr>) =
      getCharacters eng' db' (opts\<lparr>o_sortBy := Str ''char_name''\<rparr>)"
    by (simp add: getCharacters_def sort_field_fallback [OF a] sort_field_default cong: sum.case_cong)
next
  assume a: "toLowerCase s \<noteq> ''desc''"
  then show "sort_order (Str s) = Inr ''ASC''"
    by (simp add: sort_order_def)
  show "getAccounts eng now db (opts\<lparr>o_sortOrder := Str s\<rparr>) =
      getAccounts eng now db (opts\<lparr>o_sortOrder := Str ''asc''\<rparr>)"
    by (simp add: getAccounts_def sort_order_fallback [OF a] sort_order_asc)
  show "getCharacters eng' db' (opts\<lparr>o_sortOrder := Str s\<rparr>) =
      getCharacters eng' db' (opts\<lparr>o_sortOrder := Str ''asc''\<rparr>)"
    by (simp add: getCharacters_def sort_order_fallback [OF a] sort_order_asc)
qed

theorem sort_fallback_witness:
  "Str ''password'' \<notin> Str ` set account_sort_fields \<and>
   Str ''password'' \<notin> Str ` set character_sort_fields \<and>
   toLowerCase ''Descending'' \<noteq> ''desc'' \<and>
   sort_field account_sort_fields ''login'' (Str ''password'') = ''login'' \<and>
   sort_field character_sort_fields ''char_name'' (Str ''password'') = ''char_name'' \<and>
   sort_order (Str ''Descending'') = Inr ''ASC'' \<and>
   getAccounts plain_engine 1800000000 (Up three_accounts) (page_two\<lparr>o_sortBy := Str ''password''\<rparr>) =
     getAccounts plain_engine 1800000000 (Up three_accounts) (page_two\<lparr>o_sortBy := Str ''login''\<rparr>)"
proof -
  have a: "Str ''password'' \<notin> Str ` set account_sort_fields"
    by (simp add: account_sort_fields_def image_iff)
  have b: "Str ''password'' \<notin> Str ` set character_sort_fields"
    by (simp add: character_sort_fields_def image_iff)
  have c: "toLowerCase ''Descending'' \<noteq> ''desc''"
    by (simp add: toLowerCase_def)
  show ?thesis
    using a b c sort_fallback [where sortBy = "Str ''password''" and s = "''Descending''"
        and eng = plain_engine and now = 1800000000 and db = "Up three_accounts"
        and opts = page_two]
    by simp
qed

section \<open>Properties of record enrichment\<close>

lemma iso_date_Inr: "iso_date x = Inr v \<Longrightarrow> \<exists>s. v = Str s \<and> valid_iso8601 s"
  by (auto simp: iso_date_def split: sum.splits dest: toISOString_valid)

lemma iso_date_Inl: "iso_date x = Inl e \<Longrightarrow> e = RangeError"
  by (auto simp: iso_date_def split: sum.splits dest: toISOString_error)

lemma date_ternary:
  assumes "(if b then iso_date x else Inr Null) = Inr v"
  shows "(v = Null \<longleftrightarrow> \<not> b) \<and> null_or_iso v"
  using assms iso_date_Inr [of x v] by (auto simp: null_or_iso_def split: if_splits)

lemma date_ternary_error:
  assumes "(if b then iso_date x else Inr Null) = Inl e"
  shows "e = RangeError"
  using assms iso_date_Inl [of x e] by (auto split: if_splits)

lemma col_truthy_iff: "col_truthy x \<longleftrightarrow> \<not> (x = None \<or> x = Some 0)"
  by (cases x) (simp_all add: col_truthy_def)

lemma deleted_iff: "col_truthy x \<and> col_gt x 0 \<longleftrightarrow> (\<exists>t. x = Some t \<and> 0 < t)"
  by (cases x) (auto simp: col_truthy_def col_gt_def col_int_def)

text \<open>
  Claim C3, as amended. For every row given to the enrichment of characters and of
  listed accounts: \<open>createDate\<close>, \<open>lastAccessDate\<close> and \<open>lastactiveDate\<close> are \<open>null\<close> exactly
  when the source timestamp is 0 or absent; \<open>deleteDate\<close> is \<open>null\<close> exactly when
  \<open>deletetime\<close> is not greater than 0; \<open>banExpireDate\<close> is \<open>null\<close> exactly when \<open>ban_expire\<close>
  is not greater than the current time; every derived date is \<open>null\<close> or a valid
  date-time string; and when the enrichment gives no row it has thrown a \<open>RangeError\<close>.
\<close>

theorem derived_dates:
  "(enrichCharacterData c = Inr i \<longrightarrow>
      (createDate i = Null \<longleftrightarrow> createtime c = None \<or> createtime c = Some 0) \<and>
      (lastAccessDate i = Null \<longleftrightarrow> lastAccess c = None \<or> lastAccess c = Some 0) \<and>
      (deleteDate i = Null \<longleftrightarrow> \<not> (\<exists>t. deletetime c = Some t \<and> 0 < t)) \<and>
      null_or_iso (createDate i) \<and> null_or_iso (lastAccessDate i) \<and> null_or_iso (deleteDate i)) \<and>
   (enrichCharacterData c = Inl e \<longrightarrow> e = RangeError) \<and>
   (enrich_account now a = Inr j \<longrightarrow>
      (lastactiveDate j = Null \<longleftrightarrow> lastactive a = None \<or> lastactive a = Some 0) \<and>
      (banExpireDate j = Null \<longleftrightarrow> \<not> col_gt (ban_expire a) now) \<and>
      (isBanned j \<longleftrightarrow> col_gt (ban_expire a) now) \<and>
      null_or_iso (lastactiveDate j) \<and> null_or_iso (banExpireDate j)) \<and>
   (enrich_account now a = Inl e' \<longrightarrow> e' = RangeError)"
proof (intro conjI impI)
  assume h: "enrichCharacterData c = Inr i"
  then obtain cd dd la where
    cd: "(if col_truthy (createtime c) then iso_date (createtime c) else Inr Null) = Inr cd"
    and dd: "(if col_truthy (deletetime c) \<and> col_gt (deletetime c) 0
              then iso_date (deletetime c) else Inr Null) = Inr dd"
    and la: "(if col_truthy (lastAccess c) then iso_date (lastAccess c) else Inr Null) = Inr la"
    and i: "createDate i = cd" "deleteDate i = dd" "lastAccessDate i = la"
    by (auto simp: enrichCharacterData_def split: sum.splits)
  show "createDate i = Null \<longleftrightarrow> createtime c = None \<or> createtime c = Some 0"
    using date_ternary [OF cd] by (simp add: i col_truthy_iff)
  show "lastAccessDate i = Null \<longleftrightarrow> lastAccess c = None \<or> lastAccess c = Some 0"
    using date_ternary [OF la] by (simp add: i col_truthy_iff)
  show "deleteDate i = Null \<longleftrightarrow> \<not> (\<exists>t. deletetime c = Some t \<and> 0 < t)"
    using date_ternary [OF dd] by (simp add: i deleted_iff)
  show "null_or_iso (createDate i)" using date_ternary [OF cd] by (simp add: i)
  show "null_or_iso (lastAccessDate i)" using date_ternary [OF la] by (simp add: i)
  show "null_or_iso (deleteDate i)" using date_ternary [OF dd] by (simp add: i)
next
  assume "enrichCharacterData c = Inl e"
  then show "e = RangeError"
    by (auto simp: enrichCharacterData_def split: sum.splits dest: date_ternary_error)
next
  assume h: "enrich_account now a = Inr j"
  then obtain la be where
    la: "(if col_truthy (lastactive a) then iso_date (lastactive a) else Inr Null) = Inr la"
    and be: "(if col_gt (ban_expire a) now then iso_date (ban_expire a) else Inr Null) = Inr be"
    and j: "lastactiveDate j = la" "banExpireDate j = be" "isBanned j = col_gt (ban_expire a) now"
    by (auto simp: enrich_account_def split: sum.splits)
  show "lastactiveDate j = Null \<longleftrightarrow> lastactive a = None \<or> lastactive a = Some 0"
    using date_ternary [OF la] by (simp add: j col_truthy_iff)
  show "banExpireDate j = Null \<longleftrightarrow> \<not> col_gt (ban_expire a) now"
    using date_ternary [OF be] by (simp add: j)
  show "isBanned j \<longleftrightarrow> col_gt (ban_expire a) now" by (simp add: j)
  show "null_or_iso (lastactiveDate j)" using date_ternary [OF la] by (simp add: j)
  show "null_or_iso (banExpireDate j)" using date_ternary [OF be] by (simp add: j)
next
  assume "enrich_account now a = Inl e'"
  then show "e' = RangeError"
    by (auto simp: enrich_account_def split: sum.splits dest: date_ternary_error)
qed

lemma enrich_samples:
  "enrichCharacterData deleted_row =
     Inr \<lparr>character = deleted_row, createDate = Str ''2020-09-13T12:26:40.000Z'',
          deleteDate = Str ''2023-11-14T22:13:20.000Z'',
          lastAccessDate = Str ''2022-04-15T05:20:00.000Z'', isOnline = False,
          isDeleted = True, gender = ''male'', onlineTimeHours = Fin 2\<rparr>"
  "enrichCharacterData (live_row\<lparr>createtime := Some 9000000000000\<rparr>) = Inl RangeError"
  "enrich_account 1800000000 banned_account =
     Inr \<lparr>account = banned_account, lastactiveDate = Null, isBanned = True,
          banExpireDate = Str ''2030-03-17T17:46:40.000Z''\<rparr>"
  "enrich_account 1800000000 (banned_account\<lparr>ban_expire := Some 9000000000000\<rparr>) = Inl RangeError"
  by code_simp+

theorem derived_dates_witness:
  "enrichCharacterData deleted_row =
     Inr \<lparr>character = deleted_row, createDate = Str ''2020-09-13T12:26:40.000Z'',
          deleteDate = Str ''2023-11-14T22:13:20.000Z'',
          lastAccessDate = Str ''2022-04-15T05:20:00.000Z'', isOnline = False,
          isDeleted = True, gender = ''male'', onlineTimeHours = Fin 2\<rparr> \<and>
   valid_iso8601 ''2020-09-13T12:26:40.000Z'' \<and>
   valid_iso8601 ''2023-11-14T22:13:20.000Z'' \<and>
   valid_iso8601 ''2022-04-15T05:20:00.000Z'' \<and>
   enrichCharacterData (live_row\<lparr>createtime := Some 9000000000000\<rparr>) = Inl RangeError \<and>
   enrich_account 1800000000 banned_account =
     Inr \<lparr>account = banned_account, lastactiveDate = Null, isBanned = True,
          banExpireDate = Str ''2030-03-17T17:46:40.000Z''\<rparr> \<and>
   valid_iso8601 ''2030-03-17T17:46:40.000Z'' \<and>
   enrich_account 1800000000 (banned_account\<lparr>ban_expire := Some 9000000000000\<rparr>) = Inl RangeError"
  using enrich_samples
    derived_dates [where c = deleted_row and now = 1800000000 and a = banned_account
      and i = "\<lparr>character = deleted_row, createDate = Str ''2020-09-13T12:26:40.000Z'',
          deleteDate = Str ''2023-11-14T22:13:20.000Z'',
          lastAccessDate = Str ''2022-04-15T05:20:00.000Z'', isOnline = False,
          isDeleted = True, gender = ''male'', onlineTimeHours = Fin 2\<rparr>"
      and j = "\<lparr>account = banned_account, lastactiveDate = Null, isBanned = True,
          banExpireDate = Str ''2030-03-17T17:46:40.000Z''\<rparr>"]
  by (simp add: null_or_iso_def)

text \<open>
  Claim C3 as stated fails: an account whose ban expired in the past has a non-zero
  \<open>ban_expire\<close> and a \<open>null\<close> \<open>banExpireDate\<close>, and a negative \<open>deletetime\<close> gives a \<open>null\<close>
  \<open>deleteDate\<close>.
\<close>

theorem derived_dates_counterexample:
  "ban_expire (acct ''carol'' (Some 0) (Some 100)) = Some 100 \<and>
   enrich_account 1800000000 (acct ''carol'' (Some 0) (Some 100)) =
     Inr \<lparr>account = acct ''carol'' (Some 0) (Some 100), lastactiveDate = Null,
          isBanned = False, banExpireDate = Null\<rparr> \<and>
   deletetime (live_row\<lparr>deletetime := Some (- 1)\<rparr>) = Some (- 1) \<and>
   enrichCharacterData (live_row\<lparr>deletetime := Some (- 1)\<rparr>) =
     Inr \<lparr>character = live_row\<lparr>deletetime := Some (- 1)\<rparr>,
          createDate = Str ''2020-09-13T12:26:40.000Z'', deleteDate = Null,
          lastAccessDate = Null, isOnline = True, isDeleted = False, gender = ''female'',
          onlineTimeHours = Fin 2\<rparr>"
  by code_simp

section \<open>Properties of the character lookups\<close>




text \<open>
  Claim C10. The existence checks count only rows that are not deleted. So for a
  character with \<open>deletetime > 0\<close>, where names and ids identify rows, \<open>exists\<close> of its
  name and \<open>existsById\<close> of its id are false, and the route reports \<open>{exists: false}\<close>
  although the row is stored.
\<close>

theorem soft_deleted_not_exists:
  assumes "c \<in> set rows" and "deletetime c = Some t" and "0 < t"
    and "\<forall>r\<in>set rows. text_eq eng (char_name r) (char_name c) \<longrightarrow> r = c"
    and "\<forall>r\<in>set rows. obj_Id r = obj_Id c \<longrightarrow> r = c"
  shows "characters_exists eng (Up rows) name =
           Inr (\<exists>r\<in>set rows. text_eq eng (char_name r) name \<and> deletetime r = Some 0)
       \<and> characters_existsById (Up rows) (Fin i) =
           Inr (\<exists>r\<in>set rows. obj_Id r = i \<and> deletetime r = Some 0)
       \<and> characters_exists eng (Up rows) (char_name c) = Inr False
       \<and> characters_existsById (Up rows) (Fin (obj_Id c)) = Inr False
       \<and> route_character_exists eng (Up rows) (char_name c) = Json False"
  using assms
  by (auto simp: characters_exists_def characters_existsById_def route_character_exists_def
      filter_empty_conv)

theorem soft_deleted_not_exists_witness:
  "deleted_row \<in> set [deleted_row] \<and> deletetime deleted_row = Some 1700000000 \<and>
   characters_exists plain_engine (Up [deleted_row]) ''Gone'' = Inr False \<and>
   characters_existsById (Up [deleted_row]) (Fin 7) = Inr False \<and>
   route_character_exists plain_engine (Up [deleted_row]) ''Gone'' = Json False"
  using soft_deleted_not_exists [of deleted_row "[deleted_row]" 1700000000 plain_engine "''Gone''" 7]
  by (simp add: deleted_row_def)

section \<open>Properties of the unban operation\<close>

text \<open>
  Claim C9. Unban is idempotent: for an existing account the handler answers with the
  success body; called again on the resulting database it gives the same answer and
  leaves the database as it is; and when \<open>ban_expire\<close> of the account is 0 already, the
  first call changes nothing.
\<close>

theorem unban_idempotent:
  assumes "accounts_exists eng (Up rows) l = Inr True"
  shows "fst (route_unban eng (Up rows) l) = Json \<lparr>success = True\<rparr>
       \<and> route_unban eng (snd (route_unban eng (Up rows) l)) l =
           (Json \<lparr>success = True\<rparr>, snd (route_unban eng (Up rows) l))
       \<and> ((\<forall>r\<in>set rows. text_eq eng (login r) l \<longrightarrow> ban_expire r = Some 0) \<longrightarrow>
            route_unban eng (Up rows) l = (Json \<lparr>success = True\<rparr>, Up rows))"
proof -
  let ?u = "\<lambda>r. if text_eq eng (login r) l then r\<lparr>ban_expire := Some 0\<rparr> else r"
  have ex: "\<exists>r\<in>set rows. text_eq eng (login r) l"
    using assms by (simp add: accounts_exists_def filter_empty_conv)
  have 1: "route_unban eng (Up rows) l = (Json \<lparr>success = True\<rparr>, Up (map ?u rows))"
    using assms by (simp add: route_unban_def unban_update_def)
  have ex': "accounts_exists eng (Up (map ?u rows)) l = Inr True"
    using ex by (auto simp: accounts_exists_def filter_empty_conv)
  have uu: "?u (?u r) = ?u r" for r by simp
  have 2: "route_unban eng (Up (map ?u rows)) l = (Json \<lparr>success = True\<rparr>, Up (map ?u rows))"
    using ex' uu by (simp add: route_unban_def unban_update_def o_def)
  have 3: "(\<forall>r\<in>set rows. text_eq eng (login r) l \<longrightarrow> ban_expire r = Some 0) \<longrightarrow> map ?u rows = rows"
    by (auto intro!: map_idI)
  show ?thesis using 2 3 unfolding 1 by simp
qed

theorem unban_idempotent_witness:
  "accounts_exists plain_engine (Up [banned_account]) ''tester01'' = Inr True \<and>
   route_unban plain_engine (Up [banned_account]) ''tester01'' =
     (Json \<lparr>success = True\<rparr>, Up [banned_account\<lparr>ban_expire := Some 0\<rparr>]) \<and>
   route_unban plain_engine (Up [banned_account\<lparr>ban_expire := Some 0\<rparr>]) ''tester01'' =
     (Json \<lparr>success = True\<rparr>, Up [banned_account\<lparr>ban_expire := Some 0\<rparr>])"
proof -
  have h: "accounts_exists plain_engine (Up [banned_account]) ''tester01'' = Inr True"
    by (simp add: accounts_exists_def plain_engine_def banned_account_def)
  have s: "snd (route_unban plain_engine (Up [banned_account]) ''tester01'') =
      Up [banned_account\<lparr>ban_expire := Some 0\<rparr>]"
    by (simp add: route_unban_def accounts_exists_def unban_update_def plain_engine_def
        banned_account_def)
  show ?thesis
    using h s unban_idempotent [OF h] by (simp add: prod_eq_iff)
qed

end
